theory Spec2Isabelle
  imports Main "HOL-Library.Multiset"
begin

section \<open>JavaScript strings\<close>

text \<open>
  Text is a \<open>string\<close>; the line break is the character \<open>\n\<close>.
  \<open>js_split sep s\<close> is \<open>s.split(sep)\<close> for a one-character separator: it
  always returns at least one piece, and \<open>js_join\<close> is \<open>pieces.join(sep)\<close>.
\<close>

definition nl :: char where
  "nl = CHR 0x0A"

fun js_split :: "char \<Rightarrow> string \<Rightarrow> string list" where
  "js_split sep [] = [[]]"
| "js_split sep (c # cs) =
     (if c = sep then [] # js_split sep cs
      else (case js_split sep cs of
              [] \<Rightarrow> [[c]]
            | p # ps \<Rightarrow> (c # p) # ps))"

fun js_join :: "string \<Rightarrow> string list \<Rightarrow> string" where
  "js_join sep [] = []"
| "js_join sep [p] = p"
| "js_join sep (p # q # ps) = p @ sep @ js_join sep (q # ps)"

text \<open>The decimal digits of a number.\<close>

fun show_nat :: "nat \<Rightarrow> string" where
  "show_nat n =
     (if n < 10 then [''0123456789'' ! n]
      else show_nat (n div 10) @ [''0123456789'' ! (n mod 10)])"

declare show_nat.simps [simp del]

definition show_int :: "int \<Rightarrow> string" where
  "show_int i = (if i < 0 then ''-'' @ show_nat (nat (- i)) else show_nat (nat i))"

section \<open>JavaScript values\<close>

subsection \<open>JSON values\<close>

text \<open>
  The values \<open>JSON.parse\<close> returns; the numbers are the integers. A property
  that an object does not have reads as \<open>undefined\<close>: \<open>None\<close>, and so does
  every property of a value that is no object. An object lists each of its keys once.
\<close>

datatype json =
  JNull | JBool bool | JNum int | JStr string | JArr "json list" | JObj "(string \<times> json) list"

fun get_prop :: "json \<Rightarrow> string \<Rightarrow> json option" where
  "get_prop (JObj kvs) k = map_of kvs k"
| "get_prop _ k = None"

fun truthy :: "json \<Rightarrow> bool" where
  "truthy JNull = False"
| "truthy (JBool b) = b"
| "truthy (JNum n) = (n \<noteq> 0)"
| "truthy (JStr s) = (s \<noteq> [])"
| "truthy (JArr xs) = True"
| "truthy (JObj kvs) = True"

text \<open>
  The built-in functions the code calls belong to the runtime and are parameters:
  \<open>JSON.parse\<close> (\<open>None\<close> stands for the syntax error it throws),
  \<open>String.prototype.trim\<close>, the text \<open>Number.prototype.toString\<close> gives for a
  number, and the messages of the two type errors the engine itself raises: when a
  property of \<open>null\<close> or \<open>undefined\<close> is read, and when an object cannot be
  converted to a primitive value.
\<close>

datatype type_error = PropertyOfNullish | NoPrimitiveValue

record runtime =
  parse_JSON :: "string \<Rightarrow> json option"
  String_trim :: "string \<Rightarrow> string"
  Number_toString :: "int \<Rightarrow> string"
  TypeError_message :: "type_error \<Rightarrow> string"

text \<open>
  The text of a value inside a template string; \<open>None\<close> when the conversion
  throws a type error. An object is converted by its \<open>toString\<close> method: an object
  that \<open>JSON.parse\<close> built inherits the one that answers \<open>[object Object]\<close>, unless
  it has a key \<open>toString\<close> of its own, whose value is never a function; then
  \<open>valueOf\<close> is tried, which is no function either or returns the object itself, and
  the conversion throws. An array joins the texts of its elements.
\<close>

fun to_text :: "runtime \<Rightarrow> json \<Rightarrow> string option" where
  "to_text rt JNull = Some ''null''"
| "to_text rt (JBool b) = Some (if b then ''true'' else ''false'')"
| "to_text rt (JNum n) = Some (Number_toString rt n)"
| "to_text rt (JStr s) = Some s"
| "to_text rt (JArr xs) =
     map_option (js_join '','')
       (those (map (\<lambda>x. if x = JNull then Some [] else to_text rt x) xs))"
| "to_text rt (JObj kvs) =
     (if map_of kvs ''toString'' = None then Some ''[object Object]'' else None)"

definition template_text :: "runtime \<Rightarrow> json option \<Rightarrow> string option" where
  "template_text rt v = (case v of None \<Rightarrow> Some ''undefined'' | Some x \<Rightarrow> to_text rt x)"

subsection \<open>Thrown values\<close>

text \<open>
  A value that is thrown is \<open>null\<close> or \<open>undefined\<close>, or it is a value whose
  property \<open>message\<close> can be read: for an \<open>Error\<close> that is its message text, for any
  other value whatever the property holds, \<open>None\<close> when it has none. The \<open>catch\<close>
  blocks of the code print \<open>${error.message}\<close>: \<open>message_text\<close> is the text printed,
  \<open>None\<close> when reading the property or converting it to text throws a type error.
\<close>

datatype thrown = Nullish | WithMessage "json option"

definition Error :: "string \<Rightarrow> thrown" where
  "Error message = WithMessage (Some (JStr message))"

definition message_text :: "runtime \<Rightarrow> thrown \<Rightarrow> string option" where
  "message_text rt e =
     (case e of Nullish \<Rightarrow> None | WithMessage message \<Rightarrow> template_text rt message)"

section \<open>The session gateway (remote SSE/HTTP server)\<close>

subsection \<open>State\<close>

text \<open>
  A server instance is an object; its identity is the number \<open>ref\<close> it received when
  it was constructed. The plugin's factory is class-shaped (it has a prototype and is
  called with \<open>new\<close>), function-shaped (called plainly), or not a function at all.
\<close>

record ServerInstance =
  ref :: nat
  userId :: "string option"
  apiKey :: "string option"

datatype serverFactory = NotAFunction | ClassShaped | FunctionShaped

text \<open>
  Every accepted SSE request owns a reply (\<open>reply.raw\<close>: the bytes written so far and
  the \<open>writableEnded\<close> flag), a message emitter (\<open>readStream\<close>: the messages it has
  taken, whether it has ended and whether it was destroyed) and a write stream
  (whether it was ended and whether it was destroyed). They are kept in
  \<open>connections\<close>, indexed by the order of acceptance; \<open>userSessionTransports\<close> maps a
  session key to the index of the connection registered for it.
\<close>

record reply_raw =
  wire :: string
  writableEnded :: bool

record 'm connection =
  raw :: reply_raw
  inbox :: "'m list"
  readEnded :: bool
  readDestroyed :: bool
  writeEnded :: bool
  writeDestroyed :: bool

record 'm gateway =
  userServerInstances :: "string \<rightharpoonup> ServerInstance"
  userSessionTransports :: "string \<rightharpoonup> nat"
  activeConnections :: "string \<Rightarrow> int"
  connectionTotal :: "string \<Rightarrow> int"
  instancesCreated :: nat
  connections :: "'m connection list"

definition gateway_init :: "'m gateway" where
  "gateway_init =
     \<lparr>userServerInstances = Map.empty, userSessionTransports = Map.empty,
      activeConnections = (\<lambda>_. 0), connectionTotal = (\<lambda>_. 0),
      instancesCreated = 0, connections = []\<rparr>"

subsection \<open>Accepting an SSE connection\<close>

text \<open>
  \<open>createServerInstance\<close>: throws \<open>Invalid server factory\<close> unless the factory is a
  function; otherwise a new object is constructed, whose identity is the number of
  instances constructed before it.
\<close>

definition createServerInstance ::
  "serverFactory \<Rightarrow> string option \<Rightarrow> string option \<Rightarrow> nat \<Rightarrow> string + ServerInstance" where
  "createServerInstance serverFactory uid key fresh =
     (case serverFactory of
        NotAFunction \<Rightarrow> Inl ''Invalid server factory''
      | ClassShaped \<Rightarrow> Inr \<lparr>ref = fresh, userId = uid, apiKey = key\<rparr>
      | FunctionShaped \<Rightarrow> Inr \<lparr>ref = fresh, userId = uid, apiKey = key\<rparr>)"

text \<open>
  The session key of a request and the identity parsed from the path segment:
  \<open>sessionKeyEncoded.split(':', 2)\<close> keeps the first two pieces.
\<close>

definition session_key :: "string \<Rightarrow> string \<Rightarrow> string" where
  "session_key serverName sessionKeyEncoded = serverName @ '':'' @ sessionKeyEncoded"

definition parse_identity :: "string \<Rightarrow> string option \<times> string option" where
  "parse_identity sessionKeyEncoded =
     (if CHR '':'' \<in> set sessionKeyEncoded
      then (case take 2 (js_split CHR '':'' sessionKeyEncoded) of
              [u, a] \<Rightarrow> (Some u, Some a)
            | [u] \<Rightarrow> (Some u, None)
            | _ \<Rightarrow> (None, None))
      else (Some sessionKeyEncoded, None))"

text \<open>
  Get or create the server instance: an instance found in \<open>userServerInstances\<close> is
  reused; otherwise one is created, stored, and the active-connection gauge of the
  plugin is incremented. The result is the instance and the new state, or the error
  thrown by \<open>createServerInstance\<close> (nothing has been changed then).
\<close>

definition get_or_create ::
  "string \<Rightarrow> serverFactory \<Rightarrow> string \<Rightarrow> 'm gateway \<Rightarrow> string + (ServerInstance \<times> bool \<times> 'm gateway)" where
  "get_or_create serverName serverFactory sessionKeyEncoded g =
     (let sessionKey = session_key serverName sessionKeyEncoded;
          (uid, key) = parse_identity sessionKeyEncoded
      in case userServerInstances g sessionKey of
           Some serverInstance \<Rightarrow> Inr (serverInstance, False, g)
         | None \<Rightarrow>
             (case createServerInstance serverFactory uid key (instancesCreated g) of
                Inl e \<Rightarrow> Inl e
              | Inr serverInstance \<Rightarrow>
                  Inr (serverInstance, True,
                       g\<lparr>userServerInstances := (userServerInstances g)(sessionKey \<mapsto> serverInstance),
                         instancesCreated := Suc (instancesCreated g),
                         activeConnections := (activeConnections g)
                           (serverName := activeConnections g serverName + 1)\<rparr>)))"

text \<open>
  The rest of the accept path: the lifetime counter is incremented, the headers and
  the connection-established comment are written, the streams are created and the
  transport is stored under the session key (replacing a transport stored before).
\<close>

definition new_connection :: "'m connection" where
  "new_connection =
     \<lparr>raw = \<lparr>wire = '': connection established'' @ [nl, nl], writableEnded = False\<rparr>,
      inbox = [], readEnded = False, readDestroyed = False,
      writeEnded = False, writeDestroyed = False\<rparr>"

definition sse_accept ::
  "string \<Rightarrow> serverFactory \<Rightarrow> string \<Rightarrow> 'm gateway \<Rightarrow> string + (ServerInstance \<times> nat \<times> 'm gateway)" where
  "sse_accept serverName serverFactory sessionKeyEncoded g =
     (case get_or_create serverName serverFactory sessionKeyEncoded g of
        Inl e \<Rightarrow> Inl e
      | Inr (serverInstance, isNewInstance, g1) \<Rightarrow>
          (let conn = length (connections g1) in
           Inr (serverInstance, conn,
                g1\<lparr>connectionTotal := (connectionTotal g1)
                     (serverName := connectionTotal g1 serverName + 1),
                   connections := connections g1 @ [new_connection],
                   userSessionTransports := (userSessionTransports g1)
                     (session_key serverName sessionKeyEncoded \<mapsto> conn)\<rparr>)))"

subsection \<open>Teardown\<close>

text \<open>
  The three places that tear a session down. \<open>on_close\<close> is the handler of the
  request's \<open>close\<close> event: it deletes the transport of the session key, decrements
  the gauge, destroys the read stream and ends the write stream of its own connection.
  \<open>run_returned\<close> and \<open>run_threw\<close> are the end of the \<open>try\<close> block and the
  \<open>catch\<close> block; \<open>run_finally\<close> is the \<open>finally\<close> block, which deletes and
  decrements only if a transport is still stored under the session key.
\<close>

definition update_connection ::
  "nat \<Rightarrow> ('m connection \<Rightarrow> 'm connection) \<Rightarrow> 'm gateway \<Rightarrow> 'm gateway" where
  "update_connection conn f g =
     (if conn < length (connections g)
      then g\<lparr>connections := (connections g)[conn := f (connections g ! conn)]\<rparr>
      else g)"

definition release_streams :: "'m connection \<Rightarrow> 'm connection" where
  "release_streams c = c\<lparr>readDestroyed := True, writeEnded := True\<rparr>"

definition on_close :: "string \<Rightarrow> string \<Rightarrow> nat \<Rightarrow> 'm gateway \<Rightarrow> 'm gateway" where
  "on_close serverName sessionKey conn g =
     update_connection conn release_streams
       (g\<lparr>userSessionTransports := (userSessionTransports g)(sessionKey := None),
          activeConnections := (activeConnections g)
            (serverName := activeConnections g serverName - 1)\<rparr>)"

definition end_reply :: "string \<Rightarrow> 'm connection \<Rightarrow> 'm connection" where
  "end_reply last_words c =
     (if writableEnded (raw c) then c
      else c\<lparr>raw := \<lparr>wire = wire (raw c) @ last_words, writableEnded = True\<rparr>\<rparr>)"

definition run_returned :: "nat \<Rightarrow> 'm gateway \<Rightarrow> 'm gateway" where
  "run_returned conn g = update_connection conn (end_reply []) g"

definition error_event :: string where
  "error_event =
     ''event: error'' @ [nl] @ ''data: {\"message\":\"Internal server error\"}'' @ [nl, nl]"

definition run_threw :: "nat \<Rightarrow> 'm gateway \<Rightarrow> 'm gateway" where
  "run_threw conn g = update_connection conn (end_reply error_event) g"

definition run_finally :: "string \<Rightarrow> string \<Rightarrow> nat \<Rightarrow> 'm gateway \<Rightarrow> 'm gateway" where
  "run_finally serverName sessionKey conn g =
     update_connection conn release_streams
       (if userSessionTransports g sessionKey \<noteq> None
        then g\<lparr>userSessionTransports := (userSessionTransports g)(sessionKey := None),
               activeConnections := (activeConnections g)
                 (serverName := activeConnections g serverName - 1)\<rparr>
        else g)"

text \<open>
  A teardown trigger of one connection, and the state after a sequence of them.
\<close>

datatype trigger = CloseEvent | RunReturns | RunThrows

fun fire :: "string \<Rightarrow> string \<Rightarrow> nat \<Rightarrow> 'm gateway \<Rightarrow> trigger \<Rightarrow> 'm gateway" where
  "fire serverName sessionKey conn g CloseEvent = on_close serverName sessionKey conn g"
| "fire serverName sessionKey conn g RunReturns =
     run_finally serverName sessionKey conn (run_returned conn g)"
| "fire serverName sessionKey conn g RunThrows =
     run_finally serverName sessionKey conn (run_threw conn g)"

definition teardown ::
  "string \<Rightarrow> string \<Rightarrow> nat \<Rightarrow> trigger list \<Rightarrow> 'm gateway \<Rightarrow> 'm gateway" where
  "teardown serverName sessionKey conn triggers g =
     foldl (fire serverName sessionKey conn) g triggers"

subsection \<open>Posting a message\<close>

text \<open>
  \<open>stream.push(msg)\<close> of the message emitter, a \<open>Readable\<close> in object mode. The
  message \<open>null\<close> (here \<open>None\<close>) is the end of the stream: nothing is queued and the
  stream has ended. After the end, a message destroys the stream with the error of
  a push after the end, and a destroyed stream drops the message; neither throws.
  Otherwise the stream takes the message and hands it to the data listeners of the
  plugin, which run up to their first \<open>await\<close>: \<open>listener msg s\<close> is their state
  after that, where \<open>s\<close> was their state before, or the value that a listener
  throws, which \<open>push\<close> lets through.
\<close>

definition push_message ::
  "('m \<Rightarrow> 's \<Rightarrow> thrown + 's) \<Rightarrow> 'm option \<Rightarrow> 'm connection \<Rightarrow> 's
     \<Rightarrow> thrown + 'm connection \<times> 's" where
  "push_message listener msg c s =
     (case msg of
        None \<Rightarrow> Inr (c\<lparr>readEnded := True\<rparr>, s)
      | Some m \<Rightarrow>
          (if readEnded c then Inr (c\<lparr>readDestroyed := True\<rparr>, s)
           else if readDestroyed c then Inr (c, s)
           else (case listener m s of
                   Inl e \<Rightarrow> Inl e
                 | Inr s' \<Rightarrow> Inr (c\<lparr>inbox := inbox c @ [m]\<rparr>, s'))))"

text \<open>
  The message route, for a request with the given body, in a state of the gateway
  and of the listeners of the plugin that runs on the transport of the session key.
  It sends a status with a body, or it throws: the \<open>catch\<close> block prints
  \<open>${error.message}\<close>. The result is what the route has done when it returns, and
  the new state.
\<close>

datatype post_body = SessionNotFound | Accepted | FailedToProcess

datatype post_outcome = Sends nat post_body | HandlerThrows

definition post_message ::
  "runtime \<Rightarrow> ('m \<Rightarrow> 's \<Rightarrow> thrown + 's) \<Rightarrow> string \<Rightarrow> string \<Rightarrow> 'm option
     \<Rightarrow> 'm gateway \<times> 's \<Rightarrow> post_outcome \<times> 'm gateway \<times> 's" where
  "post_message rt listener serverName sessionKeyEncoded body state =
     (case state of (g, s) \<Rightarrow>
        (case userSessionTransports g (session_key serverName sessionKeyEncoded) of
           None \<Rightarrow> (Sends 404 SessionNotFound, g, s)
         | Some conn \<Rightarrow>
             (case push_message listener body (connections g ! conn) s of
                Inr (c, s') \<Rightarrow> (Sends 202 Accepted, update_connection conn (\<lambda>_. c) g, s')
              | Inl e \<Rightarrow>
                  (case message_text rt e of
                     None \<Rightarrow> (HandlerThrows, g, s)
                   | Some text \<Rightarrow> (Sends 500 FailedToProcess, g, s)))))"

text \<open>The state after one connection \<open>GET /gcalendar/alice\<close> was accepted.\<close>

definition session_alice :: "unit gateway" where
  "session_alice =
     snd (snd (projr (sse_accept ''gcalendar'' FunctionShaped ''alice'' gateway_init)))"

text \<open>The same state, for a gateway whose messages are texts.\<close>

definition session_text :: "string gateway" where
  "session_text =
     snd (snd (projr (sse_accept ''gcalendar'' FunctionShaped ''alice'' gateway_init)))"

section \<open>The JSON-RPC framer of a plugin server\<close>

subsection \<open>Dispatch: \<open>Server.handleRequest\<close>\<close>

text \<open>
  A response is a result or an error (a code and a message), with the id of the
  request. A handler of the plugin is registered or not; when called it returns a
  value or throws.
  \<open>param params i name\<close> is \<open>Array.isArray(params) ? params[i] : params?.name\<close>.
\<close>

datatype JsonRpcResponse =
  ResultResponse json json
| ErrorResponse int json json

fun resp_id :: "JsonRpcResponse \<Rightarrow> json" where
  "resp_id (ResultResponse result i) = i"
| "resp_id (ErrorResponse code message i) = i"

record handlers =
  listResourcesHandler :: "(json \<Rightarrow> thrown + json) option"
  readResourceHandler :: "(json \<Rightarrow> thrown + json) option"
  listToolsHandler :: "(thrown + json) option"
  callToolHandler :: "(json \<Rightarrow> json \<Rightarrow> thrown + json) option"

definition param :: "json option \<Rightarrow> nat \<Rightarrow> string \<Rightarrow> json option" where
  "param params i name =
     (case params of
        None \<Rightarrow> None
      | Some (JArr xs) \<Rightarrow> (if i < length xs then Some (xs ! i) else None)
      | Some p \<Rightarrow> get_prop p name)"

definition or_null :: "json option \<Rightarrow> json" where
  "or_null v = (case v of None \<Rightarrow> JNull | Some x \<Rightarrow> x)"

definition is_falsy :: "json option \<Rightarrow> bool" where
  "is_falsy v = (case v of None \<Rightarrow> True | Some x \<Rightarrow> \<not> truthy x)"

text \<open>
  \<open>throw new Error(`Method not found: ${method}`)\<close>: when the method has no text, the
  template string throws the type error instead.
\<close>

definition method_not_found :: "runtime \<Rightarrow> json option \<Rightarrow> thrown" where
  "method_not_found rt method =
     (case template_text rt method of
        None \<Rightarrow> Error (TypeError_message rt NoPrimitiveValue)
      | Some text \<Rightarrow> Error (''Method not found: '' @ text))"

text \<open>The \<open>switch\<close> inside the \<open>try\<close> block of \<open>handleRequest\<close>.\<close>

definition dispatch ::
  "runtime \<Rightarrow> handlers \<Rightarrow> json option \<Rightarrow> json option \<Rightarrow> thrown + json" where
  "dispatch rt hs method params =
     (if method = Some (JStr ''list_resources'') then
        (case listResourcesHandler hs of
           None \<Rightarrow> Inl (method_not_found rt method)
         | Some h \<Rightarrow> h (or_null (param params 0 ''cursor'')))
      else if method = Some (JStr ''read_resource'') then
        (case readResourceHandler hs of
           None \<Rightarrow> Inl (method_not_found rt method)
         | Some h \<Rightarrow>
             (if is_falsy (param params 0 ''uri'') then Inl (Error ''Missing parameter: uri'')
              else h (or_null (param params 0 ''uri''))))
      else if method = Some (JStr ''list_tools'') then
        (case listToolsHandler hs of
           None \<Rightarrow> Inl (method_not_found rt method)
         | Some h \<Rightarrow> h)
      else if method = Some (JStr ''call_tool'') then
        (case callToolHandler hs of
           None \<Rightarrow> Inl (method_not_found rt method)
         | Some h \<Rightarrow>
             (if is_falsy (param params 0 ''name'') then Inl (Error ''Missing parameter: name'')
              else h (or_null (param params 0 ''name'')) (or_null (param params 1 ''args''))))
      else Inl (method_not_found rt method))"

text \<open>
  The \<open>catch\<close> block of \<open>handleRequest\<close> prints
  \<open>`Error handling method '${method}': ${e.message}`\<close> and sets the error to
  \<open>e.message || 'Internal server error'\<close>. It throws itself, and \<open>handleRequest\<close>
  rejects, when the method has no text, when \<open>e\<close> is \<open>null\<close> or \<open>undefined\<close>, and when
  the message has no text: \<open>catch_message\<close> is \<open>None\<close> then, and the message of the
  error response otherwise.
\<close>

definition catch_message :: "runtime \<Rightarrow> json option \<Rightarrow> thrown \<Rightarrow> json option" where
  "catch_message rt method e =
     (if template_text rt method = None \<or> message_text rt e = None then None
      else (case e of
              Nullish \<Rightarrow> None
            | WithMessage message \<Rightarrow>
                (case message of
                   None \<Rightarrow> Some (JStr ''Internal server error'')
                 | Some m \<Rightarrow> Some (if truthy m then m else JStr ''Internal server error''))))"

text \<open>
  \<open>handleRequest\<close> rejects, or it resolves: with no response for a request whose id
  is absent or \<open>null\<close>, with the error or the result under the id otherwise.
\<close>

datatype settled = Rejects | Resolves "JsonRpcResponse option"

definition respond :: "json option \<Rightarrow> (json \<Rightarrow> JsonRpcResponse) \<Rightarrow> settled" where
  "respond ident response =
     (case ident of
        None \<Rightarrow> Resolves None
      | Some i \<Rightarrow> (if i = JNull then Resolves None else Resolves (Some (response i))))"

definition handleRequest :: "runtime \<Rightarrow> handlers \<Rightarrow> json \<Rightarrow> settled" where
  "handleRequest rt hs request =
     (let method = get_prop request ''method'' in
      case dispatch rt hs method (get_prop request ''params'') of
        Inr result \<Rightarrow> respond (get_prop request ''id'') (ResultResponse result)
      | Inl e \<Rightarrow>
          (case catch_message rt method e of
             None \<Rightarrow> Rejects
           | Some message \<Rightarrow>
               respond (get_prop request ''id'') (ErrorResponse (- 32603) message)))"

subsection \<open>One line of input\<close>

text \<open>
  The \<open>catch\<close> block of the data handler answers with the parse error; it parses the
  line again and takes the id over when the parsed value is truthy and has one.
  \<open>parse_error_response\<close> takes what this second \<open>JSON.parse\<close> gives.
\<close>

definition parse_error_response :: "json option \<Rightarrow> JsonRpcResponse" where
  "parse_error_response reparsed =
     ErrorResponse (- 32700) (JStr ''Parse error'')
       (case reparsed of
          None \<Rightarrow> JNull
        | Some parsed \<Rightarrow> (if truthy parsed then or_null (get_prop parsed ''id'') else JNull))"

text \<open>
  What the body of the loop does with a line that is not empty, up to the call of
  \<open>handleRequest\<close>: the line does not parse, or it parses to \<open>null\<close> (reading
  \<open>request.jsonrpc\<close> throws), or it is not a request of version 2.0 with a method:
  the \<open>catch\<close> block replies at once. Otherwise the request is handed to
  \<open>handleRequest\<close> and the handler waits for its answer.
\<close>

datatype line_step = Replied JsonRpcResponse | Dispatched json

definition valid_request :: "json \<Rightarrow> bool" where
  "valid_request request =
     (request \<noteq> JNull \<and> get_prop request ''jsonrpc'' = Some (JStr ''2.0'')
      \<and> \<not> is_falsy (get_prop request ''method''))"

definition process_line :: "runtime \<Rightarrow> string \<Rightarrow> line_step" where
  "process_line rt line =
     (case parse_JSON rt line of
        None \<Rightarrow> Replied (parse_error_response (parse_JSON rt line))
      | Some request \<Rightarrow>
          (if valid_request request then Dispatched request
           else Replied (parse_error_response (parse_JSON rt line))))"

subsection \<open>The data handler of \<open>Server.run\<close>\<close>

text \<open>
  The state of one run: the text buffer, the requests handed to \<open>handleRequest\<close>
  whose answer a handler invocation is waiting for, and the responses written to the
  write stream so far (each is written as one line of JSON text).
\<close>

record framer =
  buffer :: string
  pending :: "json list"
  written :: "JsonRpcResponse list"

definition framer_init :: framer where
  "framer_init = \<lparr>buffer = [], pending = [], written = []\<rparr>"

text \<open>
  The \<open>while\<close> loop, from its head: it takes the text up to the first line break off
  the buffer, skips an empty line, replies to a line that is no valid request, and
  stops either when the buffer holds no line break or when it has to wait for
  \<open>handleRequest\<close>.
\<close>

function drain :: "runtime \<Rightarrow> framer \<Rightarrow> framer" where
  "drain rt st =
     (if nl \<in> set (buffer st) then
        (let line = String_trim rt (takeWhile (\<lambda>c. c \<noteq> nl) (buffer st));
             st1 = st\<lparr>buffer := tl (dropWhile (\<lambda>c. c \<noteq> nl) (buffer st))\<rparr>
         in if line = [] then drain rt st1
            else (case process_line rt line of
                    Replied r \<Rightarrow> drain rt (st1\<lparr>written := written st1 @ [r]\<rparr>)
                  | Dispatched request \<Rightarrow> st1\<lparr>pending := pending st1 @ [request]\<rparr>))
      else st)"
  by pat_completeness auto

lemma length_after_line_break:
  assumes "x \<in> set xs"
  shows "length (dropWhile (\<lambda>c. c \<noteq> x) xs) - Suc 0 < length xs"
proof -
  from assms have "xs \<noteq> []" by auto
  moreover have "length (dropWhile (\<lambda>c. c \<noteq> x) xs) \<le> length xs"
    by (rule length_dropWhile_le)
  ultimately show ?thesis
    by (cases xs) auto
qed

termination drain
  by (relation "measure (\<lambda>(p, st). length (buffer st))")
     (auto simp: length_after_line_break)

text \<open>
  The two events of a run. A chunk of data arrives: a new invocation of the handler
  appends it to the buffer and runs the loop. The answer of \<open>handleRequest\<close> for the
  pending request number \<open>i\<close> arrives: the invocation that waited for it writes the
  response, if there is one, and goes on with the loop on the buffer as it is now.
\<close>

datatype event = Data string | Resolved nat

definition on_data :: "runtime \<Rightarrow> string \<Rightarrow> framer \<Rightarrow> framer" where
  "on_data rt chunk st = drain rt (st\<lparr>buffer := buffer st @ chunk\<rparr>)"

text \<open>
  When \<open>handleRequest\<close> has rejected, the \<open>catch\<close> block of the data handler writes
  the parse error; the line it parses again is the line that gave the request.
\<close>

definition response_frames :: "runtime \<Rightarrow> handlers \<Rightarrow> json \<Rightarrow> JsonRpcResponse list" where
  "response_frames rt hs request =
     (case handleRequest rt hs request of
        Rejects \<Rightarrow> [parse_error_response (Some request)]
      | Resolves None \<Rightarrow> []
      | Resolves (Some response) \<Rightarrow> [response])"

definition on_resolved :: "runtime \<Rightarrow> handlers \<Rightarrow> nat \<Rightarrow> framer \<Rightarrow> framer" where
  "on_resolved rt hs i st =
     (if i < length (pending st)
      then drain rt
             (st\<lparr>pending := take i (pending st) @ drop (Suc i) (pending st),
                 written := written st @ response_frames rt hs (pending st ! i)\<rparr>)
      else st)"

fun step :: "runtime \<Rightarrow> handlers \<Rightarrow> framer \<Rightarrow> event \<Rightarrow> framer" where
  "step rt hs st (Data chunk) = on_data rt chunk st"
| "step rt hs st (Resolved i) = on_resolved rt hs i st"

definition run :: "runtime \<Rightarrow> handlers \<Rightarrow> event list \<Rightarrow> framer" where
  "run rt hs events = foldl (step rt hs) framer_init events"

subsection \<open>The lines of the input and their responses\<close>

text \<open>
  The complete lines of a text are the pieces that end with a line break; the text
  after the last line break is the unterminated tail, which stays in the buffer.
  \<open>line_frames\<close> lists the responses that one line of input calls for: none for an
  empty line, the reply of the \<open>catch\<close> block for a line that is no valid
  request, and otherwise what \<open>handleRequest\<close> answers.
\<close>

declare drain.simps [simp del]

function complete_lines :: "string \<Rightarrow> string list" where
  "complete_lines s =
     (if nl \<in> set s
      then takeWhile (\<lambda>c. c \<noteq> nl) s # complete_lines (tl (dropWhile (\<lambda>c. c \<noteq> nl) s))
      else [])"
  by pat_completeness auto
termination
  by (relation "measure length") (auto simp: length_after_line_break)

function unterminated_tail :: "string \<Rightarrow> string" where
  "unterminated_tail s =
     (if nl \<in> set s then unterminated_tail (tl (dropWhile (\<lambda>c. c \<noteq> nl) s)) else s)"
  by pat_completeness auto
termination
  by (relation "measure length") (auto simp: length_after_line_break)

declare complete_lines.simps [simp del] unterminated_tail.simps [simp del]

definition line_frames ::
  "runtime \<Rightarrow> handlers \<Rightarrow> string \<Rightarrow> JsonRpcResponse list" where
  "line_frames rt hs s =
     (let line = String_trim rt s in
      if line = [] then []
      else (case process_line rt line of
              Replied r \<Rightarrow> [r]
            | Dispatched request \<Rightarrow> response_frames rt hs request))"

subsection \<open>Runs\<close>

text \<open>
  The loop takes at least one character off the buffer for every request it starts
  to wait for: the length of the buffer plus the number of pending requests does not
  grow.
\<close>

lemma drain_measure:
  "length (buffer (drain rt st)) + length (pending (drain rt st))
     \<le> length (buffer st) + length (pending st)"
proof (induction rt st rule: drain.induct)
  case (1 rt st)
  show ?case
  proof (cases "nl \<in> set (buffer st)")
    case False
    then show ?thesis by (simp add: drain.simps)
  next
    case True
    let ?line = "String_trim rt (takeWhile (\<lambda>c. c \<noteq> nl) (buffer st))"
    let ?st1 = "st\<lparr>buffer := tl (dropWhile (\<lambda>c. c \<noteq> nl) (buffer st))\<rparr>"
    have short: "length (buffer ?st1) < length (buffer st)"
      using True length_after_line_break [of nl "buffer st"] by simp
    show ?thesis
    proof (cases "?line = []")
      case empty: True
      from "1.IH"(1) [OF True refl refl empty] short
      show ?thesis using True empty by (subst (1 2) drain.simps) (simp add: Let_def)
    next
      case nonempty: False
      show ?thesis
      proof (cases "process_line rt ?line")
        case (Replied r)
        from "1.IH"(2) [OF True refl refl nonempty Replied] short
        show ?thesis using True nonempty Replied
          by (subst (1 2) drain.simps) (simp add: Let_def)
      next
        case (Dispatched req)
        with short show ?thesis using True nonempty
          by (subst (1 2) drain.simps) (simp add: Let_def)
      qed
    qed
  qed
qed

text \<open>
  \<open>settle\<close> lets the pending requests be answered, the oldest first, until no
  handler invocation is waiting; \<open>deliver\<close> is the arrival of a chunk whose
  handling is complete before anything else happens, and \<open>run_sequential\<close>
  delivers chunks one after the other in this way.
\<close>

function settle :: "runtime \<Rightarrow> handlers \<Rightarrow> framer \<Rightarrow> framer" where
  "settle rt hs st =
     (if pending st = [] then st else settle rt hs (on_resolved rt hs 0 st))"
  by pat_completeness auto

lemma on_resolved_measure:
  assumes "pending st \<noteq> []"
  shows "length (buffer (on_resolved rt hs 0 st)) + length (pending (on_resolved rt hs 0 st))
     < length (buffer st) + length (pending st)"
proof -
  let ?st' = "st\<lparr>pending := take 0 (pending st) @ drop (Suc 0) (pending st),
                 written := written st @ response_frames rt hs (pending st ! 0)\<rparr>"
  from assms have less: "length (buffer ?st') + length (pending ?st')
      < length (buffer st) + length (pending st)"
    by (cases "pending st") auto
  from assms have eq: "on_resolved rt hs 0 st = drain rt ?st'"
    by (simp add: on_resolved_def)
  show ?thesis
    unfolding eq by (rule le_less_trans [OF drain_measure less])
qed

termination settle
  by (relation "measure (\<lambda>(p, hs, st). length (buffer st) + length (pending st))")
     (auto simp: on_resolved_measure)

declare settle.simps [simp del]

definition deliver :: "runtime \<Rightarrow> handlers \<Rightarrow> framer \<Rightarrow> string \<Rightarrow> framer" where
  "deliver rt hs st chunk = settle rt hs (on_data rt chunk st)"

definition run_sequential :: "runtime \<Rightarrow> handlers \<Rightarrow> string list \<Rightarrow> framer" where
  "run_sequential rt hs chunks = foldl (deliver rt hs) framer_init chunks"

text \<open>
  The text delivered by a sequence of events, and the responses a state still owes:
  those written, those of the pending requests and those of the complete lines left
  in the buffer. A state is consistent with the text delivered so far when it owes
  exactly the responses of the lines of that text.
\<close>

fun chunk_of :: "event \<Rightarrow> string" where
  "chunk_of (Data chunk) = chunk"
| "chunk_of (Resolved i) = []"

definition delivered :: "event list \<Rightarrow> string" where
  "delivered events = concat (map chunk_of events)"

definition owed :: "runtime \<Rightarrow> handlers \<Rightarrow> framer \<Rightarrow> JsonRpcResponse multiset" where
  "owed rt hs st =
     mset (written st) + mset (concat (map (response_frames rt hs) (pending st)))
       + mset (concat (map (line_frames rt hs) (complete_lines (buffer st))))"

definition consistent ::
  "runtime \<Rightarrow> handlers \<Rightarrow> string \<Rightarrow> framer \<Rightarrow> bool" where
  "consistent rt hs input st =
     (owed rt hs st = mset (concat (map (line_frames rt hs) (complete_lines input)))
      \<and> unterminated_tail (buffer st) = unterminated_tail input
      \<and> (pending st = [] \<longrightarrow> nl \<notin> set (buffer st)))"

text \<open>The four methods the \<open>switch\<close> of \<open>handleRequest\<close> knows.\<close>

definition known_methods :: "json set" where
  "known_methods =
     {JStr ''list_resources'', JStr ''read_resource'', JStr ''list_tools'', JStr ''call_tool''}"

subsection \<open>A reader for JSON texts\<close>

text \<open>
  The theorems below hold for every runtime. For the examples, \<open>read_json\<close>
  reads the JSON texts whose numbers are integers and whose strings use the simple
  escapes only; it rejects every other text. A key that occurs twice keeps its place
  and takes the later value, as in \<open>JSON.parse\<close>. The first argument of
  \<open>read_value\<close> bounds the depth of the recursion; the length of the text is enough.
\<close>

definition is_json_ws :: "char \<Rightarrow> bool" where
  "is_json_ws c = (c \<in> set [CHR 0x20, CHR 0x09, CHR 0x0A, CHR 0x0D])"

definition unescape :: "char \<Rightarrow> char option" where
  "unescape c =
     (if c = CHR ''\"'' then Some (CHR ''\"'')
      else if c = CHR 0x5C then Some (CHR 0x5C)
      else if c = CHR ''/'' then Some (CHR ''/'')
      else if c = CHR ''n'' then Some (CHR 0x0A)
      else if c = CHR ''t'' then Some (CHR 0x09)
      else if c = CHR ''r'' then Some (CHR 0x0D)
      else if c = CHR ''b'' then Some (CHR 0x08)
      else if c = CHR ''f'' then Some (CHR 0x0C)
      else None)"

fun read_string :: "string \<Rightarrow> (string \<times> string) option" where
  "read_string [] = None"
| "read_string (c # cs) =
     (if c = CHR ''\"'' then Some ([], cs)
      else if c = CHR 0x5C then
        (case cs of
           [] \<Rightarrow> None
         | e # r \<Rightarrow>
             (case unescape e of
                None \<Rightarrow> None
              | Some x \<Rightarrow>
                  (case read_string r of
                     None \<Rightarrow> None
                   | Some (s, r') \<Rightarrow> Some (x # s, r'))))
      else (case read_string cs of
              None \<Rightarrow> None
            | Some (s, r) \<Rightarrow> Some (c # s, r)))"

definition is_digit :: "char \<Rightarrow> bool" where
  "is_digit c = (c \<in> set ''0123456789'')"

definition digit_value :: "char \<Rightarrow> nat" where
  "digit_value c = of_char c - 48"

definition read_nat :: "string \<Rightarrow> (nat \<times> string) option" where
  "read_nat s =
     (let ds = takeWhile is_digit s; r = dropWhile is_digit s in
      if ds = [] \<or> (hd ds = CHR ''0'' \<and> length ds > 1) then None
      else if r \<noteq> [] \<and> hd r \<in> set ''.eE'' then None
      else Some (foldl (\<lambda>n c. 10 * n + digit_value c) 0 ds, r))"

definition strip_prefix :: "string \<Rightarrow> string \<Rightarrow> string option" where
  "strip_prefix p s = (if take (length p) s = p then Some (drop (length p) s) else None)"

fun put :: "string \<Rightarrow> json \<Rightarrow> (string \<times> json) list \<Rightarrow> (string \<times> json) list" where
  "put k v [] = [(k, v)]"
| "put k v ((k', v') # kvs) = (if k = k' then (k, v) # kvs else (k', v') # put k v kvs)"

fun read_value :: "nat \<Rightarrow> string \<Rightarrow> (json \<times> string) option"
  and read_elements :: "nat \<Rightarrow> string \<Rightarrow> (json list \<times> string) option"
  and read_members :: "nat \<Rightarrow> string \<Rightarrow> ((string \<times> json) list \<times> string) option" where
  "read_value 0 s = None"
| "read_value (Suc n) s =
     (case dropWhile is_json_ws s of
        [] \<Rightarrow> None
      | c # r \<Rightarrow>
          if c = CHR ''\"'' then
            (case read_string r of None \<Rightarrow> None | Some (x, r') \<Rightarrow> Some (JStr x, r'))
          else if c = CHR ''['' then
            (case dropWhile is_json_ws r of
               [] \<Rightarrow> None
             | d # r' \<Rightarrow>
                 if d = CHR '']'' then Some (JArr [], r')
                 else (case read_elements n r of
                         None \<Rightarrow> None
                       | Some (vs, r'') \<Rightarrow> Some (JArr vs, r'')))
          else if c = CHR ''{'' then
            (case dropWhile is_json_ws r of
               [] \<Rightarrow> None
             | d # r' \<Rightarrow>
                 if d = CHR ''}'' then Some (JObj [], r')
                 else (case read_members n r of
                         None \<Rightarrow> None
                       | Some (kvs, r'') \<Rightarrow>
                           Some (JObj (foldl (\<lambda>acc (k, v). put k v acc) [] kvs), r'')))
          else if c = CHR ''-'' then
            (case read_nat r of None \<Rightarrow> None | Some (m, r') \<Rightarrow> Some (JNum (- int m), r'))
          else if is_digit c then
            (case read_nat (c # r) of None \<Rightarrow> None | Some (m, r') \<Rightarrow> Some (JNum (int m), r'))
          else (case strip_prefix ''true'' (c # r) of
                  Some r' \<Rightarrow> Some (JBool True, r')
                | None \<Rightarrow>
                    (case strip_prefix ''false'' (c # r) of
                       Some r' \<Rightarrow> Some (JBool False, r')
                     | None \<Rightarrow>
                         (case strip_prefix ''null'' (c # r) of
                            Some r' \<Rightarrow> Some (JNull, r')
                          | None \<Rightarrow> None))))"
| "read_elements 0 s = None"
| "read_elements (Suc n) s =
     (case read_value n s of
        None \<Rightarrow> None
      | Some (v, r) \<Rightarrow>
          (case dropWhile is_json_ws r of
             [] \<Rightarrow> None
           | c # r' \<Rightarrow>
               if c = CHR '','' then
                 (case read_elements n r' of
                    None \<Rightarrow> None
                  | Some (vs, r'') \<Rightarrow> Some (v # vs, r''))
               else if c = CHR '']'' then Some ([v], r')
               else None))"
| "read_members 0 s = None"
| "read_members (Suc n) s =
     (case dropWhile is_json_ws s of
        [] \<Rightarrow> None
      | q # r \<Rightarrow>
          if q \<noteq> CHR ''\"'' then None
          else (case read_string r of
                  None \<Rightarrow> None
                | Some (k, r1) \<Rightarrow>
                    (case dropWhile is_json_ws r1 of
                       [] \<Rightarrow> None
                     | c # r2 \<Rightarrow>
                         if c \<noteq> CHR '':'' then None
                         else (case read_value n r2 of
                                 None \<Rightarrow> None
                               | Some (v, r3) \<Rightarrow>
                                   (case dropWhile is_json_ws r3 of
                                      [] \<Rightarrow> None
                                    | d # r4 \<Rightarrow>
                                        if d = CHR '','' then
                                          (case read_members n r4 of
                                             None \<Rightarrow> None
                                           | Some (kvs, r5) \<Rightarrow> Some ((k, v) # kvs, r5))
                                        else if d = CHR ''}'' then Some ([(k, v)], r4)
                                        else None)))))"

definition read_json :: "string \<Rightarrow> json option" where
  "read_json s =
     (case read_value (Suc (length s)) s of
        None \<Rightarrow> None
      | Some (v, r) \<Rightarrow> if dropWhile is_json_ws r = [] then Some v else None)"

subsection \<open>Example runtime, example plugin and example lines\<close>

text \<open>
  The runtime of the examples: on the lines used here, which are ASCII text with
  small numbers, the reader above, the removal of ASCII white space at both ends and
  the decimal digits agree with \<open>JSON.parse\<close>, \<open>trim\<close> and the text of a number.
\<close>

definition is_space :: "char \<Rightarrow> bool" where
  "is_space c = (c \<in> set [CHR 0x09, CHR 0x0A, CHR 0x0B, CHR 0x0C, CHR 0x0D, CHR 0x20])"

definition ascii_trim :: "string \<Rightarrow> string" where
  "ascii_trim s = rev (dropWhile is_space (rev (dropWhile is_space s)))"

definition example_runtime :: runtime where
  "example_runtime =
     \<lparr>parse_JSON = read_json, String_trim = ascii_trim, Number_toString = show_int,
      TypeError_message = (\<lambda>e. case e of
          PropertyOfNullish \<Rightarrow> ''Cannot read properties of null''
        | NoPrimitiveValue \<Rightarrow> ''Cannot convert object to primitive value'')\<rparr>"

text \<open>
  A plugin with the four handlers registered, a plugin with none, a plugin whose
  tools handler throws \<open>null\<close>, and lines of input used in the examples.
\<close>

definition example_handlers :: handlers where
  "example_handlers =
     \<lparr>listResourcesHandler = Some (\<lambda>cursor. Inl (Error ''User ID is not set for list_resources'')),
      readResourceHandler = Some (\<lambda>uri. Inr (JArr [JObj [(''content'', JStr ''No upcoming events''),
                                                         (''mimeType'', JStr ''text/plain'')]])),
      listToolsHandler = Some (Inr (JArr [JObj [(''name'', JStr ''list_events'')]])),
      callToolHandler = Some (\<lambda>name args.
        if name = JStr ''list_events''
        then Inr (JArr [JObj [(''type'', JStr ''text''), (''text'', JStr ''No events found'')]])
        else Inl (Error ''Unknown tool''))\<rparr>"

definition throwing_null :: handlers where
  "throwing_null = \<lparr>listResourcesHandler = None, readResourceHandler = None,
     listToolsHandler = Some (Inl Nullish), callToolHandler = None\<rparr>"

definition no_handlers :: handlers where
  "no_handlers = \<lparr>listResourcesHandler = None, readResourceHandler = None,
     listToolsHandler = None, callToolHandler = None\<rparr>"

definition list_tools_notification :: string where
  "list_tools_notification = ''{\"jsonrpc\":\"2.0\",\"method\":\"list_tools\"}''"

definition request_without_version :: string where
  "request_without_version = ''{\"method\":\"list_tools\"}''"

definition call_tool_1 :: string where
  "call_tool_1 = ''{\"jsonrpc\":\"2.0\",\"method\":\"call_tool\",\"params\":{\"name\":\"list_events\"},\"id\":1}''"

definition list_tools_2 :: string where
  "list_tools_2 = ''{\"jsonrpc\":\"2.0\",\"method\":\"list_tools\",\"id\":2}''"

definition events_found :: JsonRpcResponse where
  "events_found =
     ResultResponse (JArr [JObj [(''type'', JStr ''text''), (''text'', JStr ''No events found'')]])
       (JNum 1)"

definition tools_listed :: JsonRpcResponse where
  "tools_listed = ResultResponse (JArr [JObj [(''name'', JStr ''list_events'')]]) (JNum 2)"

definition overtaking :: "event list" where
  "overtaking = [Data (call_tool_1 @ [nl]), Data (list_tools_2 @ [nl]), Resolved 1, Resolved 0]"

definition not_json :: string where
  "not_json = ''{\"jsonrpc\":\"2.0\",''"

definition wrong_version_7 :: string where
  "wrong_version_7 = ''{\"jsonrpc\":\"1.0\",\"method\":\"list_tools\",\"id\":7}''"

definition unknown_method_8 :: string where
  "unknown_method_8 = ''{\"jsonrpc\":\"2.0\",\"method\":\"shutdown\",\"id\":8}''"

definition unknown_method_null :: string where
  "unknown_method_null = ''{\"jsonrpc\":\"2.0\",\"method\":\"shutdown\",\"id\":null}''"

definition unprintable_method_9 :: string where
  "unprintable_method_9 = ''{\"jsonrpc\":\"2.0\",\"method\":{\"toString\":1},\"id\":9}''"

section \<open>The outbound side of the SSE transport\<close>

text \<open>
  The \<open>write\<close> function of the write stream handed to the plugin. A chunk is a
  string, or a value that \<open>JSON.stringify\<close> turns into text (a parameter, as
  \<open>JSON.parse\<close> is), or a value that it does not turn into text (\<open>undefined\<close>, a
  function, a cyclic object): then \<open>JSON.stringify\<close> or the \<open>split\<close> of its result
  throws, and the \<open>catch\<close> block hands the error to the callback. The result is the
  argument of the callback (\<open>None\<close> for success, or the message of the error) and
  the reply after the write.
\<close>

datatype payload = Text string | Value json | Unserialisable string

definition sse_event :: "string \<Rightarrow> string" where
  "sse_event dataString =
     js_join [nl] (map (\<lambda>line. ''data: '' @ line) (js_split nl dataString)) @ [nl, nl]"

definition sse_write ::
  "(json \<Rightarrow> string) \<Rightarrow> payload \<Rightarrow> reply_raw \<Rightarrow> string option \<times> reply_raw" where
  "sse_write JSON_stringify chunk reply =
     (case chunk of
        Unserialisable message \<Rightarrow> (Some message, reply)
      | _ \<Rightarrow>
          (let dataString = (case chunk of Text s \<Rightarrow> s | Value v \<Rightarrow> JSON_stringify v) in
           if \<not> writableEnded reply
           then (None, reply\<lparr>wire := wire reply @ sse_event dataString\<rparr>)
           else (Some ''Cannot write to closed SSE stream'', reply)))"

text \<open>The text of a payload: the payload itself, or its serialisation.\<close>

definition payload_text :: "(json \<Rightarrow> string) \<Rightarrow> payload \<Rightarrow> string" where
  "payload_text JSON_stringify chunk =
     (case chunk of Text s \<Rightarrow> s | Value v \<Rightarrow> JSON_stringify v)"

text \<open>
  \<open>writeStream.write(chunk)\<close>, the call the plugin makes: the write stream is a
  \<open>Writable\<close> in object mode. It throws for the chunk \<open>null\<close>. Once it was ended
  or destroyed it refuses every other chunk, with the error of a write after the
  end or of a write to a destroyed stream, and does not call its \<open>write\<close>
  function. Otherwise it calls the \<open>write\<close> function, and an error handed to the
  callback destroys the stream. The result is what the call did, and the
  connection after it.
\<close>

datatype write_outcome = Written | StreamClosed | CallbackError string | NullRefused

definition stream_write ::
  "(json \<Rightarrow> string) \<Rightarrow> payload \<Rightarrow> 'm connection \<Rightarrow> write_outcome \<times> 'm connection" where
  "stream_write JSON_stringify chunk c =
     (if chunk = Value JNull then (NullRefused, c)
      else if writeEnded c \<or> writeDestroyed c
      then (StreamClosed, c\<lparr>writeDestroyed := True\<rparr>)
      else (case sse_write JSON_stringify chunk (raw c) of
              (None, reply) \<Rightarrow> (Written, c\<lparr>raw := reply\<rparr>)
            | (Some message, reply) \<Rightarrow>
                (CallbackError message, c\<lparr>raw := reply, writeDestroyed := True\<rparr>)))"

text \<open>
  A write is attempted after the connection has ended when the write stream was
  ended or destroyed or the reply was ended.
\<close>

definition connection_ended :: "'m connection \<Rightarrow> bool" where
  "connection_ended c = (writeEnded c \<or> writeDestroyed c \<or> writableEnded (raw c))"

section \<open>The plugin behind a transport\<close>

text \<open>
  The data listener that \<open>Server.run\<close> attaches to the message emitter is an
  \<open>async\<close> function: it throws nothing into \<open>push\<close>, and what it has done when
  \<open>push\<close> returns is \<open>on_data\<close>, the handling of the chunk up to the first request
  that is handed to \<open>handleRequest\<close>. The chunk is the text of the message.
\<close>

definition data_listener :: "runtime \<Rightarrow> string \<Rightarrow> framer \<Rightarrow> thrown + framer" where
  "data_listener rt chunk st = Inr (on_data rt chunk st)"

text \<open>A listener that throws an error, and a plugin without listeners.\<close>

definition failing_listener :: "unit \<Rightarrow> unit \<Rightarrow> thrown + unit" where
  "failing_listener msg s = Inl (Error ''stream error'')"

definition no_listener :: "unit \<Rightarrow> unit \<Rightarrow> thrown + unit" where
  "no_listener msg s = Inr s"

section \<open>Plugin discovery\<close>

text \<open>
  What discovery reads from the disk is a parameter: the listing of the servers
  directory (or the message of the error \<open>readdir\<close> throws), which files exist, and
  what the dynamic import of a module file yields (its exports, or the value thrown
  while the module is loaded). An exported value is a function (class-shaped or
  plain), an object, \<open>null\<close>, missing, or something else; \<open>typeof\<close> answers \<open>object\<close>
  for an object and for \<open>null\<close>. Paths are joined with a slash. The log is the
  list of the lines written through \<open>logger\<close>, each with its level; the
  \<open>console.log\<close> lines and the second error line that holds the stack of an error
  are left out.
\<close>

definition path_join :: "string \<Rightarrow> string \<Rightarrow> string" where
  "path_join dir p = dir @ ''/'' @ p"

definition quoted :: "string \<Rightarrow> string" where
  "quoted s = [CHR 0x27] @ s @ [CHR 0x27]"

datatype level = INFO | WARN | ERROR

type_synonym log = "(level \<times> string) list"

datatype exported =
  ClassFunction | PlainFunction | ObjectValue | NullValue | Undefined | OtherValue

definition is_function :: "exported \<Rightarrow> bool" where
  "is_function e = (e = ClassFunction \<or> e = PlainFunction)"

definition is_object :: "exported \<Rightarrow> bool" where
  "is_object e = (e = ObjectValue \<or> e = NullValue)"

record ServerModule =
  server :: exported
  getInitializationOptions :: exported

record ServerInfo =
  serverFactory :: exported
  getInitOptions :: exported

record dirent =
  entry_name :: string
  isDirectory :: bool

record disk =
  readdir :: "string \<Rightarrow> string + dirent list"
  file_exists :: "string \<Rightarrow> bool"
  import_module :: "string \<Rightarrow> thrown + ServerModule"

text \<open>
  The \<open>try\<close> block of \<open>loadServerModule\<close>: the import and the two checks of the
  exports; \<open>Inl\<close> is the value thrown.
\<close>

definition no_server_export :: string where
  "no_server_export =
     ''Module does not export a '' @ quoted ''server'' @ '' class or factory function.''"

definition no_init_export :: string where
  "no_init_export =
     ''Module does not export a '' @ quoted ''getInitializationOptions'' @ '' function.''"

definition import_and_validate :: "disk \<Rightarrow> string \<Rightarrow> thrown + ServerModule" where
  "import_and_validate d serverFile =
     (case import_module d serverFile of
        Inl e \<Rightarrow> Inl e
      | Inr serverModule \<Rightarrow>
          (if \<not> is_function (server serverModule) \<and> \<not> is_object (server serverModule)
           then Inl (Error no_server_export)
           else if \<not> is_function (getInitializationOptions serverModule)
           then Inl (Error no_init_export)
           else Inr serverModule))"

definition main_file_not_found :: "string \<Rightarrow> string \<Rightarrow> string" where
  "main_file_not_found serverName serverFile =
     ''Server main file not found for '' @ quoted serverName @ '' at '' @ serverFile"

definition failed_to_load :: "string \<Rightarrow> string \<Rightarrow> string \<Rightarrow> string" where
  "failed_to_load serverName serverFile message =
     ''Failed to load server module '' @ quoted serverName @ '' from '' @ serverFile
       @ '': '' @ message"

text \<open>
  The \<open>catch\<close> block of \<open>loadServerModule\<close> prints \<open>${error.message}\<close>. When the
  value caught is \<open>null\<close> or \<open>undefined\<close>, or its message has no text, the block
  throws the type error of the engine. \<open>loadServerModule\<close> returns the module or
  \<open>null\<close>, and what it logged; or it throws (\<open>Inl\<close>), out of its \<open>catch\<close> block.
\<close>

definition loadServerModule ::
  "runtime \<Rightarrow> disk \<Rightarrow> string \<Rightarrow> string \<Rightarrow> type_error + ServerModule option \<times> log" where
  "loadServerModule rt d serverName serverDir =
     (let serverFile = path_join serverDir ''main.ts'' in
      if \<not> file_exists d serverFile
      then Inr (None, [(WARN, main_file_not_found serverName serverFile)])
      else (case import_and_validate d serverFile of
              Inl e \<Rightarrow>
                (case message_text rt e of
                   None \<Rightarrow> Inl (case e of Nullish \<Rightarrow> PropertyOfNullish
                               | WithMessage message \<Rightarrow> NoPrimitiveValue)
                 | Some message \<Rightarrow>
                     Inr (None, [(ERROR, failed_to_load serverName serverFile message)]))
            | Inr serverModule \<Rightarrow>
                Inr (Some serverModule,
                     [(INFO, ''Successfully loaded server module: '' @ serverName)])))"

text \<open>
  The map of loaded servers keeps the order of insertion. \<open>load_entry\<close> is the
  body of the loop over the directory entries, and \<open>load_entries\<close> is the loop: it
  is left when \<open>loadServerModule\<close> throws, with the error and with what was loaded
  and logged until then.
\<close>

type_synonym servers = "(string \<times> ServerInfo) list"

fun map_set :: "string \<Rightarrow> 'v \<Rightarrow> (string \<times> 'v) list \<Rightarrow> (string \<times> 'v) list" where
  "map_set k v [] = [(k, v)]"
| "map_set k v ((k', v') # kvs) = (if k = k' then (k, v) # kvs else (k', v') # map_set k v kvs)"

definition load_entry ::
  "runtime \<Rightarrow> disk \<Rightarrow> string \<Rightarrow> servers \<times> log \<Rightarrow> dirent \<Rightarrow> type_error + servers \<times> log" where
  "load_entry rt d SERVERS_DIR acc entry =
     (if isDirectory entry then
        (let serverName = entry_name entry;
             serverDirPath = path_join SERVERS_DIR serverName
         in case loadServerModule rt d serverName serverDirPath of
              Inl e \<Rightarrow> Inl e
            | Inr (Some m, lines) \<Rightarrow>
                Inr (map_set serverName
                       \<lparr>serverFactory = server m, getInitOptions = getInitializationOptions m\<rparr>
                       (fst acc),
                     snd acc @ lines)
            | Inr (None, lines) \<Rightarrow> Inr (fst acc, snd acc @ lines))
      else Inr acc)"

fun load_entries ::
  "runtime \<Rightarrow> disk \<Rightarrow> string \<Rightarrow> servers \<times> log \<Rightarrow> dirent list
     \<Rightarrow> type_error option \<times> servers \<times> log" where
  "load_entries rt d SERVERS_DIR acc [] = (None, acc)"
| "load_entries rt d SERVERS_DIR acc (entry # entries) =
     (case load_entry rt d SERVERS_DIR acc entry of
        Inl e \<Rightarrow> (Some e, acc)
      | Inr acc' \<Rightarrow> load_entries rt d SERVERS_DIR acc' entries)"

definition discovery_start :: "string \<Rightarrow> servers \<times> log" where
  "discovery_start SERVERS_DIR = ([], [(INFO, ''Looking for servers in '' @ SERVERS_DIR)])"

definition error_reading :: "string \<Rightarrow> string \<Rightarrow> level \<times> string" where
  "error_reading SERVERS_DIR message =
     (ERROR, ''Error reading servers directory '' @ SERVERS_DIR @ '': '' @ message)"

definition discovered :: "servers \<Rightarrow> level \<times> string" where
  "discovered serversMap =
     (INFO, ''Discovered and loaded '' @ show_nat (length serversMap)
        @ '' servers: ['' @ js_join '', '' (map fst serversMap) @ '']'')"

text \<open>
  \<open>discoverAndLoadServers\<close>: the \<open>catch\<close> block around the loop logs the error that
  \<open>readdir\<close> or \<open>loadServerModule\<close> has thrown; the last log line and the map
  returned hold what was loaded.
\<close>

definition discoverAndLoadServers :: "runtime \<Rightarrow> disk \<Rightarrow> string \<Rightarrow> servers \<times> log" where
  "discoverAndLoadServers rt d SERVERS_DIR =
     (let start = discovery_start SERVERS_DIR;
          (serversMap, lines) =
            (case readdir d SERVERS_DIR of
               Inl message \<Rightarrow> (fst start, snd start @ [error_reading SERVERS_DIR message])
             | Inr entries \<Rightarrow>
                 (case load_entries rt d SERVERS_DIR start entries of
                    (None, acc) \<Rightarrow> acc
                  | (Some e, loaded, logged) \<Rightarrow>
                      (loaded,
                       logged @ [error_reading SERVERS_DIR (TypeError_message rt e)])))
      in (serversMap, lines @ [discovered serversMap]))"







definition throws_null :: disk where
  "throws_null =
     \<lparr>readdir = (\<lambda>dir. Inr [\<lparr>entry_name = ''faulty'', isDirectory = True\<rparr>,
                            \<lparr>entry_name = ''gcalendar'', isDirectory = True\<rparr>]),
      file_exists = (\<lambda>file. True),
      import_module = (\<lambda>file.
        if file = ''/srv/faulty/main.ts'' then Inl Nullish
        else Inr \<lparr>server = PlainFunction, getInitializationOptions = PlainFunction\<rparr>)\<rparr>"

section \<open>Authentication clients\<close>

subsection \<open>The file system\<close>

text \<open>
  A path holds a regular file with its content, a directory, or nothing.
  \<open>mkdirSync\<close> is called with \<open>recursive: true\<close>: it succeeds on a directory
  that exists and throws where the path is a regular file. Reading a directory and
  writing over one throw. The directories above a path and the permissions are not
  tracked.
\<close>

datatype node = File string | Directory

type_synonym filesystem = "string \<rightharpoonup> node"

definition mkdirSync :: "string \<Rightarrow> filesystem \<Rightarrow> string + filesystem" where
  "mkdirSync p fs =
     (case fs p of
        Some (File c) \<Rightarrow> Inl (''EEXIST: file already exists, mkdir '' @ quoted p)
      | _ \<Rightarrow> Inr (fs(p \<mapsto> Directory)))"




subsection \<open>\<open>LocalAuthClient\<close>\<close>

text \<open>
  The constructor picks each directory from its argument, the environment or the
  project root (\<open>a || b || c\<close>) and creates it. \<open>getUserCredentials\<close> and
  \<open>saveUserCredentials\<close> return their result (or the message of the error thrown)
  and the file system as they leave it. Credentials are an object with a \<open>toJSON\<close>
  method (given by what the method returns), an object without one, or a value that
  is no object; the three cases are the three branches of \<open>saveUserCredentials\<close>.
\<close>

record LocalAuthClient =
  oauthConfigBaseDir :: string
  credentialsBaseDir :: string

definition first_truthy :: "string option \<Rightarrow> string \<Rightarrow> string" where
  "first_truthy a b = (case a of None \<Rightarrow> b | Some x \<Rightarrow> if x = [] then b else x)"

definition mkdir_if_set :: "string \<Rightarrow> filesystem \<Rightarrow> string + filesystem" where
  "mkdir_if_set dir fs = (if dir \<noteq> [] then mkdirSync dir fs else Inr fs)"

definition new_LocalAuthClient ::
  "string option \<Rightarrow> string option \<Rightarrow> (string \<Rightarrow> string option) \<Rightarrow> string \<Rightarrow> filesystem
     \<Rightarrow> (string + LocalAuthClient) \<times> filesystem" where
  "new_LocalAuthClient oauthArg credentialsArg env projectRoot fs =
     (let oauthDir = first_truthy oauthArg (first_truthy (env ''GUMCP_OAUTH_CONFIG_DIR'')
            (path_join (path_join projectRoot ''local_auth'') ''oauth_configs''));
          credentialsDir = first_truthy credentialsArg (first_truthy (env ''GUMCP_CREDENTIALS_DIR'')
            (path_join (path_join projectRoot ''local_auth'') ''credentials''))
      in case mkdir_if_set oauthDir fs of
           Inl e \<Rightarrow> (Inl e, fs)
         | Inr fs1 \<Rightarrow>
             (case mkdir_if_set credentialsDir fs1 of
                Inl e \<Rightarrow> (Inl e, fs1)
              | Inr fs2 \<Rightarrow>
                  (Inr \<lparr>oauthConfigBaseDir = oauthDir, credentialsBaseDir = credentialsDir\<rparr>,
                   fs2)))"





subsection \<open>\<open>createAuthClient\<close>\<close>

text \<open>
  The body of \<open>createAuthClient\<close> is a sequence of statements, each of which
  returns, throws, or lets the next one run. The client type, when given, is
  represented by what \<open>new clientType()\<close> does: it returns an object or throws.
  \<open>toLowerCase\<close> maps the letters A to Z.
\<close>

definition toLowerCase :: "string \<Rightarrow> string" where
  "toLowerCase s =
     map (\<lambda>c. case map_of (zip ''ABCDEFGHIJKLMNOPQRSTUVWXYZ'' ''abcdefghijklmnopqrstuvwxyz'') c of
                Some l \<Rightarrow> l
              | None \<Rightarrow> c) s"

datatype 'a flow = Return 'a | Throw string | Next

definition and_then :: "'a flow \<times> 's \<Rightarrow> ('s \<Rightarrow> 'a flow \<times> 's) \<Rightarrow> 'a flow \<times> 's" where
  "and_then r k = (case r of (Next, s) \<Rightarrow> k s | _ \<Rightarrow> r)"

record GumloopAuthClient =
  apiBaseUrl :: string
  gumloopApiKey :: "string option"

datatype 'c auth_client =
  OfClientType 'c | Gumloop GumloopAuthClient | Local LocalAuthClient

definition new_GumloopAuthClient ::
  "string option \<Rightarrow> (string \<Rightarrow> string option) \<Rightarrow> GumloopAuthClient" where
  "new_GumloopAuthClient key env =
     \<lparr>apiBaseUrl = first_truthy (env ''GUMLOOP_API_BASE_URL'') ''https://api.gumloop.com/api/v1'',
      gumloopApiKey = key\<rparr>"

definition or_undefined :: "string option \<Rightarrow> string option" where
  "or_undefined a = (case a of None \<Rightarrow> None | Some x \<Rightarrow> if x = [] then None else Some x)"

definition createAuthClient ::
  "(string + 'c) option \<Rightarrow> string option \<Rightarrow> (string \<Rightarrow> string option) \<Rightarrow> string \<Rightarrow> filesystem
     \<Rightarrow> 'c auth_client flow \<times> filesystem" where
  "createAuthClient clientType key env projectRoot fs =
     and_then
       (case clientType of
          Some constructed \<Rightarrow>
            (case constructed of
               Inl e \<Rightarrow> (Throw e, fs)
             | Inr client \<Rightarrow> (Return (OfClientType client), fs))
        | None \<Rightarrow> (Next, fs))
       (\<lambda>fs. and_then
          (let environment = toLowerCase (first_truthy (env ''ENVIRONMENT'') ''local'') in
           if environment = ''gumloop''
           then (Return (Gumloop (new_GumloopAuthClient (or_undefined key) env)), fs)
           else (Next, fs))
          (\<lambda>fs. and_then
             (case new_LocalAuthClient None None env projectRoot fs of
                (Inl e, fs1) \<Rightarrow> (Throw e, fs1)
              | (Inr client, fs1) \<Rightarrow> (Return (Local client), fs1))
             (\<lambda>fs. (Throw ''Client type not provided.'', fs))))"

subsection \<open>A writer for JSON texts, and example data\<close>

text \<open>
  \<open>write_json\<close> writes a value as JSON text, for the examples; the theorems hold
  for every \<open>JSON_stringify\<close>.
\<close>

definition escape_char :: "char \<Rightarrow> string" where
  "escape_char c =
     (if c = CHR ''\"'' then [CHR 0x5C, CHR ''\"'']
      else if c = CHR 0x5C then [CHR 0x5C, CHR 0x5C]
      else if c = CHR 0x0A then [CHR 0x5C, CHR ''n'']
      else if c = CHR 0x09 then [CHR 0x5C, CHR ''t'']
      else if c = CHR 0x0D then [CHR 0x5C, CHR ''r'']
      else [c])"

definition write_string :: "string \<Rightarrow> string" where
  "write_string s = [CHR ''\"''] @ concat (map escape_char s) @ [CHR ''\"'']"

fun write_json :: "json \<Rightarrow> string" where
  "write_json JNull = ''null''"
| "write_json (JBool b) = (if b then ''true'' else ''false'')"
| "write_json (JNum n) = show_int n"
| "write_json (JStr s) = write_string s"
| "write_json (JArr xs) = ''['' @ js_join '','' (map write_json xs) @ '']''"
| "write_json (JObj kvs) =
     ''{'' @ js_join '','' (map (\<lambda>(k, v). write_string k @ '':'' @ write_json v) kvs) @ ''}''"

definition local_client :: LocalAuthClient where
  "local_client =
     \<lparr>oauthConfigBaseDir = ''/app/local_auth/oauth_configs'',
      credentialsBaseDir = ''/app/local_auth/credentials''\<rparr>"



definition production :: "string \<Rightarrow> string option" where
  "production v = (if v = ''ENVIRONMENT'' then Some ''GumLoop'' else None)"

definition unset :: "string \<Rightarrow> string option" where
  "unset v = None"

section \<open>Properties of the string functions\<close>

lemma js_join_cons: "ps \<noteq> [] \<Longrightarrow> js_join sep (p # ps) = p @ sep @ js_join sep ps"
  by (cases ps) auto

lemma js_split_nonempty: "js_split sep s \<noteq> []"
  by (induction s) (auto split: list.splits)

lemma js_join_split: "js_join [sep] (js_split sep s) = s"
proof (induction s)
  case Nil
  then show ?case by simp
next
  case (Cons c cs)
  show ?case
  proof (cases "c = sep")
    case True
    with Cons show ?thesis by (simp add: js_join_cons js_split_nonempty)
  next
    case False
    obtain p ps where sp: "js_split sep cs = p # ps"
      using js_split_nonempty [of sep cs] by (cases "js_split sep cs") auto
    with Cons False show ?thesis by (cases ps) auto
  qed
qed

lemma js_split_pieces: "p \<in> set (js_split sep s) \<Longrightarrow> sep \<notin> set p"
proof (induction s arbitrary: p)
  case Nil
  then show ?case by simp
next
  case (Cons c cs)
  then show ?case
    by (cases "js_split sep cs") (auto split: if_splits)
qed

section \<open>Properties of the framer\<close>

subsection \<open>Lines\<close>

lemma split_at_line_break:
  assumes "nl \<in> set s"
  shows "s = takeWhile (\<lambda>c. c \<noteq> nl) s @ nl # tl (dropWhile (\<lambda>c. c \<noteq> nl) s)"
proof -
  from assms have ne: "dropWhile (\<lambda>c. c \<noteq> nl) s \<noteq> []"
    by (simp add: dropWhile_eq_Nil_conv)
  then have "hd (dropWhile (\<lambda>c. c \<noteq> nl) s) = nl"
    using hd_dropWhile [of "\<lambda>c. c \<noteq> nl" s] by simp
  with ne have "dropWhile (\<lambda>c. c \<noteq> nl) s = nl # tl (dropWhile (\<lambda>c. c \<noteq> nl) s)"
    by (cases "dropWhile (\<lambda>c. c \<noteq> nl) s") auto
  then show ?thesis
    using takeWhile_dropWhile_id [of "\<lambda>c. c \<noteq> nl" s] by simp
qed

lemma takeWhile_line: "nl \<notin> set l \<Longrightarrow> takeWhile (\<lambda>c. c \<noteq> nl) (l @ nl # r) = l"
  by (induction l) auto

lemma dropWhile_line: "nl \<notin> set l \<Longrightarrow> tl (dropWhile (\<lambda>c. c \<noteq> nl) (l @ nl # r)) = r"
  by (induction l) auto

lemma complete_lines_none [simp]: "nl \<notin> set s \<Longrightarrow> complete_lines s = []"
  by (simp add: complete_lines.simps)

lemma unterminated_tail_none [simp]: "nl \<notin> set s \<Longrightarrow> unterminated_tail s = s"
  by (simp add: unterminated_tail.simps)

lemma complete_lines_line [simp]:
  "nl \<notin> set l \<Longrightarrow> complete_lines (l @ nl # r) = l # complete_lines r"
  by (subst complete_lines.simps) (simp add: takeWhile_line dropWhile_line)

lemma unterminated_tail_line [simp]:
  "nl \<notin> set l \<Longrightarrow> unterminated_tail (l @ nl # r) = unterminated_tail r"
  by (subst unterminated_tail.simps) (simp add: takeWhile_line dropWhile_line)

lemma line_cases:
  obtains (none) "nl \<notin> set s"
  | (line) l r where "s = l @ nl # r" and "nl \<notin> set l" and "length r < length s"
proof (cases "nl \<in> set s")
  case False
  then show ?thesis by (rule none)
next
  case True
  let ?l = "takeWhile (\<lambda>c. c \<noteq> nl) s"
  let ?r = "tl (dropWhile (\<lambda>c. c \<noteq> nl) s)"
  have "s = ?l @ nl # ?r" using True by (rule split_at_line_break)
  moreover have "nl \<notin> set ?l" by (auto dest: set_takeWhileD)
  moreover have "length ?r < length s"
    using length_after_line_break [OF True] by simp
  ultimately show ?thesis by (rule line)
qed

lemma unterminated_tail_no_break [simp]: "nl \<notin> set (unterminated_tail s)"
proof (induction "length s" arbitrary: s rule: less_induct)
  case less
  show ?case
  proof (cases s rule: line_cases)
    case none
    then show ?thesis by simp
  next
    case (line l r)
    with less [of r] show ?thesis by simp
  qed
qed

lemma complete_lines_append:
  "complete_lines (s @ t) = complete_lines s @ complete_lines (unterminated_tail s @ t)"
proof (induction "length s" arbitrary: s rule: less_induct)
  case less
  show ?case
  proof (cases s rule: line_cases)
    case none
    then show ?thesis by simp
  next
    case (line l r)
    with less [of r] show ?thesis by simp
  qed
qed

lemma unterminated_tail_append:
  "unterminated_tail (s @ t) = unterminated_tail (unterminated_tail s @ t)"
proof (induction "length s" arbitrary: s rule: less_induct)
  case less
  show ?case
  proof (cases s rule: line_cases)
    case none
    then show ?thesis by simp
  next
    case (line l r)
    with less [of r] show ?thesis by simp
  qed
qed

lemma js_split_no_sep: "sep \<notin> set s \<Longrightarrow> js_split sep s = [s]"
  by (induction s) auto

lemma js_split_line: "sep \<notin> set l \<Longrightarrow> js_split sep (l @ sep # r) = l # js_split sep r"
  by (induction l) auto

lemma complete_lines_js_split: "complete_lines s = butlast (js_split nl s)"
proof (induction "length s" arbitrary: s rule: less_induct)
  case less
  show ?case
  proof (cases s rule: line_cases)
    case none
    then show ?thesis by (simp add: js_split_no_sep)
  next
    case (line l r)
    with less [of r] show ?thesis by (simp add: js_split_line js_split_nonempty)
  qed
qed

lemma unterminated_tail_js_split: "unterminated_tail s = last (js_split nl s)"
proof (induction "length s" arbitrary: s rule: less_induct)
  case less
  show ?case
  proof (cases s rule: line_cases)
    case none
    then show ?thesis by (simp add: js_split_no_sep)
  next
    case (line l r)
    with less [of r] show ?thesis by (simp add: js_split_line js_split_nonempty)
  qed
qed

subsection \<open>drain on a line\<close>

lemma drain_no_break: "nl \<notin> set (buffer st) \<Longrightarrow> drain rt st = st"
  by (simp add: drain.simps)

lemma drain_line:
  assumes "buffer st = l @ nl # r" and "nl \<notin> set l"
  shows "drain rt st =
     (if String_trim rt l = [] then drain rt (st\<lparr>buffer := r\<rparr>)
      else (case process_line rt (String_trim rt l) of
              Replied x \<Rightarrow> drain rt (st\<lparr>buffer := r, written := written st @ [x]\<rparr>)
            | Dispatched request \<Rightarrow> st\<lparr>buffer := r, pending := pending st @ [request]\<rparr>))"
  using assms
  by (subst drain.simps) (simp add: takeWhile_line dropWhile_line Let_def split: line_step.splits)

subsection \<open>Sequential runs\<close>

lemma settle_idle: "pending st = [] \<Longrightarrow> settle rt hs st = st"
  by (simp add: settle.simps)

lemma settle_single:
  "pending st = [request] \<Longrightarrow>
   settle rt hs st =
     settle rt hs (drain rt (st\<lparr>pending := [], written := written st @ response_frames rt hs request\<rparr>))"
  by (subst settle.simps) (simp add: on_resolved_def)

lemma line_frames_blank: "String_trim rt l = [] \<Longrightarrow> line_frames rt hs l = []"
  by (simp add: line_frames_def)

lemma line_frames_replied:
  "String_trim rt l \<noteq> [] \<Longrightarrow> process_line rt (String_trim rt l) = Replied x \<Longrightarrow> line_frames rt hs l = [x]"
  by (simp add: line_frames_def)

lemma line_frames_dispatched:
  "String_trim rt l \<noteq> [] \<Longrightarrow> process_line rt (String_trim rt l) = Dispatched request \<Longrightarrow>
   line_frames rt hs l = response_frames rt hs request"
  by (simp add: line_frames_def)

lemma settle_drain:
  "pending st = [] \<Longrightarrow>
   settle rt hs (drain rt st) =
     st\<lparr>buffer := unterminated_tail (buffer st),
        written := written st @ concat (map (line_frames rt hs) (complete_lines (buffer st)))\<rparr>"
proof (induction "length (buffer st)" arbitrary: st rule: less_induct)
  case less
  show ?case
  proof (cases "buffer st" rule: line_cases)
    case none
    with less.prems show ?thesis
      by (simp add: drain_no_break settle_idle)
  next
    case (line l r)
    note buf = line(1) and l = line(2) and shorter = line(3)
    show ?thesis
    proof (cases "String_trim rt l = []")
      case True
      have "settle rt hs (drain rt st) = settle rt hs (drain rt (st\<lparr>buffer := r\<rparr>))"
        using drain_line [OF buf l, of rt] True by simp
      also have "\<dots> = (st\<lparr>buffer := r\<rparr>)\<lparr>buffer := unterminated_tail r,
          written := written st @ concat (map (line_frames rt hs) (complete_lines r))\<rparr>"
        using less.hyps [of "st\<lparr>buffer := r\<rparr>"] shorter less.prems by simp
      finally show ?thesis
        using buf l True by (simp add: line_frames_blank)
    next
      case False
      show ?thesis
      proof (cases "process_line rt (String_trim rt l)")
        case (Replied x)
        let ?st1 = "st\<lparr>buffer := r, written := written st @ [x]\<rparr>"
        have "settle rt hs (drain rt st) = settle rt hs (drain rt ?st1)"
          using drain_line [OF buf l, of rt] False Replied by simp
        also have "\<dots> = ?st1\<lparr>buffer := unterminated_tail r,
            written := written ?st1 @ concat (map (line_frames rt hs) (complete_lines r))\<rparr>"
          using less.hyps [of ?st1] shorter less.prems by simp
        finally show ?thesis
          using buf l False Replied by (simp add: line_frames_replied)
      next
        case (Dispatched request)
        let ?st1 = "st\<lparr>buffer := r, pending := pending st @ [request]\<rparr>"
        let ?st2 = "st\<lparr>buffer := r, pending := [],
          written := written st @ response_frames rt hs request\<rparr>"
        have idle: "st\<lparr>pending := []\<rparr> = st"
          using less.prems by simp
        have "drain rt st = ?st1"
          using drain_line [OF buf l, of rt] False Dispatched by simp
        then have "settle rt hs (drain rt st) = settle rt hs (drain rt ?st2)"
          using settle_single [of ?st1 request rt hs] less.prems by simp
        also have "\<dots> = ?st2\<lparr>buffer := unterminated_tail r,
            written := written ?st2 @ concat (map (line_frames rt hs) (complete_lines r))\<rparr>"
          using less.hyps [of ?st2] shorter by simp
        also have "\<dots> = (st\<lparr>pending := []\<rparr>)\<lparr>buffer := unterminated_tail r,
            written := written st @ response_frames rt hs request
              @ concat (map (line_frames rt hs) (complete_lines r))\<rparr>"
          by simp
        finally show ?thesis
          using buf l False Dispatched by (simp add: line_frames_dispatched idle)
      qed
    qed
  qed
qed

lemma deliver_idle:
  assumes "pending st = []"
  shows "deliver rt hs st chunk =
     st\<lparr>buffer := unterminated_tail (buffer st @ chunk),
        written := written st
          @ concat (map (line_frames rt hs) (complete_lines (buffer st @ chunk)))\<rparr>"
  using settle_drain [of "st\<lparr>buffer := buffer st @ chunk\<rparr>" rt hs] assms
  by (simp add: deliver_def on_data_def)

lemma run_sequential_state:
  "run_sequential rt hs chunks =
     \<lparr>buffer = unterminated_tail (concat chunks), pending = [],
      written = concat (map (line_frames rt hs) (complete_lines (concat chunks)))\<rparr>"
proof (induction chunks rule: rev_induct)
  case Nil
  then show ?case by (simp add: run_sequential_def framer_init_def)
next
  case (snoc chunk chunks)
  have "run_sequential rt hs (chunks @ [chunk]) = deliver rt hs (run_sequential rt hs chunks) chunk"
    by (simp add: run_sequential_def)
  also have "\<dots> = \<lparr>buffer = unterminated_tail (unterminated_tail (concat chunks) @ chunk),
      pending = [],
      written = concat (map (line_frames rt hs) (complete_lines (concat chunks)))
        @ concat (map (line_frames rt hs)
            (complete_lines (unterminated_tail (concat chunks) @ chunk)))\<rparr>"
    by (subst deliver_idle) (simp_all add: snoc.IH)
  finally show ?case
    by (simp add: complete_lines_append [of "concat chunks" chunk]
        unterminated_tail_append [of "concat chunks" chunk])
qed

subsection \<open>Arbitrary schedules\<close>

lemma drain_owed:
  "owed rt hs (drain rt st) = owed rt hs st
   \<and> unterminated_tail (buffer (drain rt st)) = unterminated_tail (buffer st)
   \<and> (nl \<in> set (buffer (drain rt st)) \<longrightarrow> pending (drain rt st) \<noteq> [])"
proof (induction "length (buffer st)" arbitrary: st rule: less_induct)
  case less
  show ?case
  proof (cases "buffer st" rule: line_cases)
    case none
    then show ?thesis by (simp add: drain_no_break)
  next
    case (line l r)
    note buf = line(1) and l = line(2) and shorter = line(3)
    show ?thesis
    proof (cases "String_trim rt l = []")
      case True
      have "drain rt st = drain rt (st\<lparr>buffer := r\<rparr>)"
        using drain_line [OF buf l, of rt] True by simp
      with less [of "st\<lparr>buffer := r\<rparr>"] shorter buf l True show ?thesis
        by (simp add: owed_def line_frames_blank)
    next
      case False
      show ?thesis
      proof (cases "process_line rt (String_trim rt l)")
        case (Replied x)
        let ?st1 = "st\<lparr>buffer := r, written := written st @ [x]\<rparr>"
        have "drain rt st = drain rt ?st1"
          using drain_line [OF buf l, of rt] False Replied by simp
        with less [of ?st1] shorter buf l False Replied show ?thesis
          by (simp add: owed_def line_frames_replied)
      next
        case (Dispatched request)
        have "drain rt st = st\<lparr>buffer := r, pending := pending st @ [request]\<rparr>"
          using drain_line [OF buf l, of rt] False Dispatched by simp
        with buf l False Dispatched show ?thesis
          by (simp add: owed_def line_frames_dispatched)
      qed
    qed
  qed
qed

lemma mset_concat_remove_nth:
  assumes "i < length xs"
  shows "mset (concat (map f (take i xs @ drop (Suc i) xs))) + mset (f (xs ! i))
     = mset (concat (map f xs))"
proof -
  from assms have "xs = take i xs @ xs ! i # drop (Suc i) xs"
    by (rule id_take_nth_drop)
  then have "mset (concat (map f xs))
      = mset (concat (map f (take i xs @ xs ! i # drop (Suc i) xs)))"
    by simp
  then show ?thesis by simp
qed

lemma consistent_init: "consistent rt hs [] framer_init"
  by (simp add: consistent_def owed_def framer_init_def)

lemma consistent_step:
  assumes "consistent rt hs input st"
  shows "consistent rt hs (input @ chunk_of e) (step rt hs st e)"
proof (cases e)
  case (Data chunk)
  let ?st1 = "st\<lparr>buffer := buffer st @ chunk\<rparr>"
  have "owed rt hs ?st1
      = owed rt hs st + mset (concat (map (line_frames rt hs)
          (complete_lines (unterminated_tail (buffer st) @ chunk))))"
    by (simp add: owed_def complete_lines_append [of "buffer st" chunk])
  with assms have "owed rt hs ?st1
      = mset (concat (map (line_frames rt hs) (complete_lines (input @ chunk))))"
    by (simp add: consistent_def complete_lines_append [of input chunk])
  moreover from assms have "unterminated_tail (buffer ?st1) = unterminated_tail (input @ chunk)"
    by (simp add: consistent_def unterminated_tail_append [of "buffer st" chunk]
        unterminated_tail_append [of input chunk])
  ultimately show ?thesis
    using drain_owed [of rt hs ?st1] Data
    by (auto simp: consistent_def on_data_def)
next
  case (Resolved i)
  show ?thesis
  proof (cases "i < length (pending st)")
    case False
    with assms Resolved show ?thesis by (simp add: on_resolved_def)
  next
    case True
    let ?st1 = "st\<lparr>pending := take i (pending st) @ drop (Suc i) (pending st),
                 written := written st @ response_frames rt hs (pending st ! i)\<rparr>"
    have "owed rt hs ?st1 = owed rt hs st"
      using mset_concat_remove_nth [OF True, of "response_frames rt hs"]
      by (simp add: owed_def ac_simps)
    with assms have "owed rt hs ?st1
        = mset (concat (map (line_frames rt hs) (complete_lines input)))"
      and "unterminated_tail (buffer ?st1) = unterminated_tail input"
      by (simp_all add: consistent_def)
    then show ?thesis
      using drain_owed [of rt hs ?st1] Resolved True
      by (auto simp: consistent_def on_resolved_def)
  qed
qed

lemma consistent_run: "consistent rt hs (delivered events) (run rt hs events)"
proof (induction events rule: rev_induct)
  case Nil
  then show ?case by (simp add: run_def delivered_def consistent_init)
next
  case (snoc e events)
  from consistent_step [OF snoc.IH, of e] show ?case
    by (simp add: run_def delivered_def)
qed

lemma run_settled_mset:
  assumes "pending (run rt hs events) = []"
  shows "mset (written (run rt hs events))
     = mset (concat (map (line_frames rt hs) (complete_lines (delivered events))))"
  using consistent_run [of rt hs events] assms
  by (auto simp: consistent_def owed_def)

subsection \<open>Single lines\<close>

lemma deliver_line:
  assumes "pending st = []" and "buffer st = []" and "nl \<notin> set l"
  shows "deliver rt hs st (l @ [nl]) = st\<lparr>written := written st @ line_frames rt hs l\<rparr>"
  using deliver_idle [OF assms(1), of rt hs "l @ [nl]"] assms(2,3)
    complete_lines_line [of l "[]"] unterminated_tail_line [of l "[]"]
  by simp

lemma respond_without_id:
  "ident = None \<or> ident = Some JNull \<Longrightarrow> respond ident response = Resolves None"
  by (auto simp: respond_def)

lemma respond_with_id:
  "i \<noteq> JNull \<Longrightarrow> respond (Some i) response = Resolves (Some (response i))"
  by (simp add: respond_def)

lemma handleRequest_rejects:
  "handleRequest rt hs request = Rejects \<longleftrightarrow>
     (\<exists>e. dispatch rt hs (get_prop request ''method'') (get_prop request ''params'') = Inl e
          \<and> catch_message rt (get_prop request ''method'') e = None)"
  by (auto simp: handleRequest_def respond_def Let_def split: sum.splits option.splits)

lemma handleRequest_notification:
  assumes "get_prop request ''id'' = None \<or> get_prop request ''id'' = Some JNull"
    and "handleRequest rt hs request \<noteq> Rejects"
  shows "handleRequest rt hs request = Resolves None"
  using assms
  by (auto simp: handleRequest_def respond_def Let_def split: sum.splits option.splits)

lemma truthy_has_prop: "get_prop v k = Some x \<Longrightarrow> truthy v"
  by (cases v) auto

lemma response_frames_with_id:
  assumes "get_prop request ''id'' = Some i" and "i \<noteq> JNull"
  shows "\<exists>r. response_frames rt hs request = [r] \<and> resp_id r = i"
proof (cases "dispatch rt hs (get_prop request ''method'') (get_prop request ''params'')")
  case (Inr result)
  with assms have "response_frames rt hs request = [ResultResponse result i]"
    by (simp add: response_frames_def handleRequest_def respond_with_id)
  then show ?thesis by simp
next
  case (Inl e)
  show ?thesis
  proof (cases "catch_message rt (get_prop request ''method'') e")
    case None
    from assms(1) have "truthy request" by (rule truthy_has_prop)
    with Inl None assms have "response_frames rt hs request
        = [ErrorResponse (- 32700) (JStr ''Parse error'') i]"
      by (simp add: response_frames_def handleRequest_def parse_error_response_def or_null_def)
    then show ?thesis by simp
  next
    case (Some message)
    with Inl assms have "response_frames rt hs request = [ErrorResponse (- 32603) message i]"
      by (simp add: response_frames_def handleRequest_def respond_with_id)
    then show ?thesis by simp
  qed
qed

lemma line_frames_valid:
  assumes "String_trim rt l \<noteq> []" and "parse_JSON rt (String_trim rt l) = Some request"
    and "valid_request request"
  shows "line_frames rt hs l = response_frames rt hs request"
  using assms by (simp add: line_frames_def process_line_def)

lemma line_frames_unparsable:
  assumes "String_trim rt l \<noteq> []" and "parse_JSON rt (String_trim rt l) = None"
  shows "line_frames rt hs l = [ErrorResponse (- 32700) (JStr ''Parse error'') JNull]"
  using assms by (simp add: line_frames_def process_line_def parse_error_response_def)

lemma line_frames_invalid:
  assumes "String_trim rt l \<noteq> []" and "parse_JSON rt (String_trim rt l) = Some parsed"
    and "\<not> valid_request parsed"
  shows "line_frames rt hs l =
     [ErrorResponse (- 32700) (JStr ''Parse error'')
        (if truthy parsed then or_null (get_prop parsed ''id'') else JNull)]"
  using assms by (simp add: line_frames_def process_line_def parse_error_response_def)

text \<open>
  A chunk that holds one line with a valid request, arriving while nothing is
  pending: when the data handler returns, the request is pending and nothing was
  written.
\<close>

lemma on_data_request:
  assumes "pending st = []" and "buffer st = []" and "nl \<notin> set l"
    and "String_trim rt l \<noteq> []" and "parse_JSON rt (String_trim rt l) = Some request"
    and "valid_request request"
  shows "on_data rt (l @ [nl]) st = st\<lparr>pending := [request]\<rparr>"
proof -
  have p: "process_line rt (String_trim rt l) = Dispatched request"
    using assms(5,6) by (simp add: process_line_def)
  have "drain rt (st\<lparr>buffer := l @ [nl]\<rparr>)
      = st\<lparr>buffer := l @ [nl]\<rparr>\<lparr>buffer := [], pending := pending (st\<lparr>buffer := l @ [nl]\<rparr>) @ [request]\<rparr>"
    using drain_line [of "st\<lparr>buffer := l @ [nl]\<rparr>" l "[]" rt] assms(3,4) p by simp
  also have "\<dots> = st\<lparr>pending := [request]\<rparr>"
    using assms(1,2) by (cases st) simp
  finally show ?thesis using assms(2) by (simp add: on_data_def)
qed

subsection \<open>When \<open>handleRequest\<close> rejects\<close>

text \<open>
  The \<open>catch\<close> block of \<open>handleRequest\<close> completes when the method has a text
  and the value caught is an \<open>Error\<close>: for every string as method and every handler
  that returns or throws an \<open>Error\<close>, \<open>handleRequest\<close> resolves.
\<close>

lemma catch_message_Error:
  assumes "template_text rt method \<noteq> None"
  shows "catch_message rt method (Error message)
     = Some (JStr (if message = [] then ''Internal server error'' else message))"
  using assms by (simp add: catch_message_def message_text_def Error_def template_text_def)

lemma handleRequest_resolves:
  assumes "get_prop request ''method'' = Some (JStr name)"
    and "\<forall>e. dispatch rt hs (Some (JStr name)) (get_prop request ''params'') = Inl e
           \<longrightarrow> (\<exists>message. e = Error message)"
  shows "handleRequest rt hs request \<noteq> Rejects"
proof
  assume "handleRequest rt hs request = Rejects"
  then obtain e where
    e: "dispatch rt hs (get_prop request ''method'') (get_prop request ''params'') = Inl e"
    and none: "catch_message rt (get_prop request ''method'') e = None"
    unfolding handleRequest_rejects by blast
  from e assms obtain message where "e = Error message" by auto
  moreover have "template_text rt (get_prop request ''method'') \<noteq> None"
    using assms(1) by (simp add: template_text_def)
  ultimately show False
    using none catch_message_Error [of rt "get_prop request ''method''" message] by simp
qed

text \<open>
  It throws when the handler has thrown \<open>null\<close>, and when the method is an object
  with a key \<open>toString\<close>: then \<open>handleRequest\<close> rejects and the data handler writes
  the parse error, also for a request without id.
\<close>

lemma handler_throws_null:
  "parse_JSON example_runtime list_tools_notification
     = Some (JObj [(''jsonrpc'', JStr ''2.0''), (''method'', JStr ''list_tools'')])
   \<and> handleRequest example_runtime throwing_null
       (JObj [(''jsonrpc'', JStr ''2.0''), (''method'', JStr ''list_tools'')]) = Rejects
   \<and> written (run_sequential example_runtime throwing_null [list_tools_notification @ [nl]])
       = [ErrorResponse (- 32700) (JStr ''Parse error'') JNull]"
  by code_simp

lemma method_without_text:
  "parse_JSON example_runtime unprintable_method_9
     = Some (JObj [(''jsonrpc'', JStr ''2.0''), (''method'', JObj [(''toString'', JNum 1)]),
                   (''id'', JNum 9)])
   \<and> written (run_sequential example_runtime example_handlers [unprintable_method_9 @ [nl]])
       = [ErrorResponse (- 32700) (JStr ''Parse error'') (JNum 9)]"
  by code_simp

subsection \<open>Notifications\<close>

text \<open>
  C2, as amended. A line that parses to a valid request (version 2.0, with a method)
  whose id is absent or null gets no response frame whenever \<open>handleRequest\<close>
  resolves, whatever the method is: \<open>handleRequest\<close> answers nothing for it, and the
  write stream is as it was. \<open>handleRequest\<close> resolves, in particular, when the
  method is a string and the handler returns or throws an \<open>Error\<close>. The line
  arrives at the start of a line, while no handler invocation is waiting. Nothing
  is said of a request for which \<open>handleRequest\<close> rejects.
\<close>

theorem notification_writes_no_frame:
  assumes "pending st = []" and "buffer st = []" and "nl \<notin> set l"
    and "parse_JSON rt (String_trim rt l) = Some request" and "valid_request request"
    and "get_prop request ''id'' = None \<or> get_prop request ''id'' = Some JNull"
  shows "(handleRequest rt hs request \<noteq> Rejects \<longrightarrow>
            handleRequest rt hs request = Resolves None
            \<and> written (deliver rt hs st (l @ [nl])) = written st)
     \<and> (\<forall>name. get_prop request ''method'' = Some (JStr name)
            \<and> (\<forall>e. dispatch rt hs (Some (JStr name)) (get_prop request ''params'') = Inl e
                   \<longrightarrow> (\<exists>message. e = Error message))
          \<longrightarrow> handleRequest rt hs request \<noteq> Rejects)"
proof -
  have "handleRequest rt hs request = Resolves None
      \<and> written (deliver rt hs st (l @ [nl])) = written st"
    if resolves: "handleRequest rt hs request \<noteq> Rejects"
  proof -
    have none: "handleRequest rt hs request = Resolves None"
      using assms(6) resolves by (rule handleRequest_notification)
    have "line_frames rt hs l = []"
    proof (cases "String_trim rt l = []")
      case True
      then show ?thesis by (rule line_frames_blank)
    next
      case False
      with assms(4,5) none show ?thesis
        by (simp add: line_frames_valid response_frames_def)
    qed
    with deliver_line [OF assms(1-3), of rt hs] none show ?thesis by simp
  qed
  moreover have "\<forall>name. get_prop request ''method'' = Some (JStr name)
            \<and> (\<forall>e. dispatch rt hs (Some (JStr name)) (get_prop request ''params'') = Inl e
                   \<longrightarrow> (\<exists>message. e = Error message))
          \<longrightarrow> handleRequest rt hs request \<noteq> Rejects"
    using handleRequest_resolves [of request _ rt hs] by blast
  ultimately show ?thesis by blast
qed

theorem notification_writes_no_frame_witness:
  "parse_JSON example_runtime (String_trim example_runtime list_tools_notification)
     = Some (JObj [(''jsonrpc'', JStr ''2.0''), (''method'', JStr ''list_tools'')])
   \<and> handleRequest example_runtime example_handlers
       (JObj [(''jsonrpc'', JStr ''2.0''), (''method'', JStr ''list_tools'')]) = Resolves None
   \<and> written (deliver example_runtime example_handlers framer_init
       (list_tools_notification @ [nl])) = []"
proof -
  let ?request = "JObj [(''jsonrpc'', JStr ''2.0''), (''method'', JStr ''list_tools'')]"
  have p: "parse_JSON example_runtime (String_trim example_runtime list_tools_notification)
      = Some ?request"
    by code_simp
  have v: "valid_request ?request" by code_simp
  have i: "get_prop ?request ''id'' = None \<or> get_prop ?request ''id'' = Some JNull"
    by simp
  have n: "nl \<notin> set list_tools_notification" by code_simp
  have m: "get_prop ?request ''method'' = Some (JStr ''list_tools'')" by simp
  have h: "\<forall>e. dispatch example_runtime example_handlers (Some (JStr ''list_tools''))
        (get_prop ?request ''params'') = Inl e \<longrightarrow> (\<exists>message. e = Error message)"
    by (simp add: dispatch_def example_handlers_def)
  have idle: "pending framer_init = []" "buffer framer_init = []"
    by (simp_all add: framer_init_def)
  from notification_writes_no_frame [OF idle n p v i, of example_handlers] m h
  have "handleRequest example_runtime example_handlers ?request = Resolves None
      \<and> written (deliver example_runtime example_handlers framer_init
          (list_tools_notification @ [nl])) = written framer_init"
    by blast
  with p show ?thesis by (simp add: framer_init_def)
qed

text \<open>
  C2, the claim as stated fails. The line \<open>{"method":"list_tools"}\<close> has no id; it
  fails validation (no version), and the \<open>catch\<close> block writes a parse error
  with id \<open>null\<close>.
\<close>

theorem invalid_notification_gets_frame:
  "parse_JSON example_runtime request_without_version
     = Some (JObj [(''method'', JStr ''list_tools'')])
   \<and> get_prop (JObj [(''method'', JStr ''list_tools'')]) ''id'' = None
   \<and> written (run_sequential example_runtime example_handlers [request_without_version @ [nl]])
       = [ErrorResponse (- 32700) (JStr ''Parse error'') JNull]"
  by code_simp

subsection \<open>One response per request, and the order of the responses\<close>

text \<open>A sequential run is a run: \<open>settle\<close> is a sequence of answers.\<close>

lemma settle_as_events:
  "\<exists>n. settle rt hs st = foldl (step rt hs) st (replicate n (Resolved 0))"
proof (induction rt hs st rule: settle.induct)
  case (1 rt hs st)
  show ?case
  proof (cases "pending st = []")
    case True
    then have "settle rt hs st = foldl (step rt hs) st (replicate 0 (Resolved 0))"
      by (simp add: settle_idle)
    then show ?thesis by blast
  next
    case False
    from "1.IH" [OF False] obtain n where
      "settle rt hs (on_resolved rt hs 0 st)
         = foldl (step rt hs) (on_resolved rt hs 0 st) (replicate n (Resolved 0))"
      by blast
    with False have "settle rt hs st = foldl (step rt hs) st (replicate (Suc n) (Resolved 0))"
      by (subst settle.simps) simp
    then show ?thesis by blast
  qed
qed

lemma delivered_append [simp]: "delivered (xs @ ys) = delivered xs @ delivered ys"
  by (simp add: delivered_def)

lemma delivered_resolved [simp]: "delivered (replicate n (Resolved i)) = []"
  by (induction n) (simp_all add: delivered_def)

lemma run_sequential_is_run:
  "\<exists>events. run_sequential rt hs chunks = run rt hs events \<and> delivered events = concat chunks"
proof (induction chunks rule: rev_induct)
  case Nil
  have "run_sequential rt hs [] = run rt hs [] \<and> delivered [] = concat []"
    by (simp add: run_sequential_def run_def delivered_def)
  then show ?case by blast
next
  case (snoc chunk chunks)
  then obtain events where ev: "run_sequential rt hs chunks = run rt hs events"
    and del: "delivered events = concat chunks"
    by blast
  obtain n where "settle rt hs (on_data rt chunk (run rt hs events))
      = foldl (step rt hs) (on_data rt chunk (run rt hs events)) (replicate n (Resolved 0))"
    using settle_as_events by blast
  then have "run_sequential rt hs (chunks @ [chunk])
      = run rt hs (events @ Data chunk # replicate n (Resolved 0))"
    using ev by (simp add: run_sequential_def run_def deliver_def)
  moreover have "delivered (events @ Data chunk # replicate n (Resolved 0)) = concat (chunks @ [chunk])"
    using del delivered_append [of events "[Data chunk]"]
      delivered_append [of "events @ [Data chunk]" "replicate n (Resolved 0)"]
    by (simp add: delivered_def)
  ultimately show ?case by blast
qed

lemma line_frames_request_with_id:
  assumes "String_trim rt l \<noteq> []" and "parse_JSON rt (String_trim rt l) = Some request"
    and "valid_request request"
    and "get_prop request ''id'' = Some i" and "i \<noteq> JNull"
  shows "\<exists>r. line_frames rt hs l = [r] \<and> resp_id r = i"
  using response_frames_with_id [OF assms(4,5), of rt hs]
    line_frames_valid [OF assms(1-3), of hs]
  by simp

text \<open>
  C3, as amended. A line that holds a valid request with a present id calls for
  exactly one response frame, with that id. However the arrival of chunks and the
  answers of \<open>handleRequest\<close> interleave, once no request is pending the frames
  written are exactly the frames the complete lines of the input call for, each as
  often as it is called for. When each chunk is handled to the end before the next
  one arrives, the frames are written in the order of the lines.
\<close>

theorem responses_once_and_sequentially_ordered:
  "(String_trim rt l \<noteq> [] \<and> parse_JSON rt (String_trim rt l) = Some request
      \<and> valid_request request
      \<and> get_prop request ''id'' = Some i \<and> i \<noteq> JNull \<longrightarrow>
      (\<exists>r. line_frames rt hs l = [r] \<and> resp_id r = i))
   \<and> (pending (run rt hs events) = [] \<longrightarrow>
        mset (written (run rt hs events))
          = mset (concat (map (line_frames rt hs) (complete_lines (delivered events)))))
   \<and> written (run_sequential rt hs chunks)
        = concat (map (line_frames rt hs) (complete_lines (concat chunks)))
   \<and> pending (run_sequential rt hs chunks) = []"
  using line_frames_request_with_id [of rt l request i hs]
    run_settled_mset [of rt hs events]
    run_sequential_state [of rt hs chunks]
  by simp

theorem responses_once_and_sequentially_ordered_witness:
  "line_frames example_runtime example_handlers call_tool_1 = [events_found]
   \<and> resp_id events_found = JNum 1
   \<and> pending (run example_runtime example_handlers overtaking) = []
   \<and> mset (written (run example_runtime example_handlers overtaking))
       = mset [events_found, tools_listed]
   \<and> written (run_sequential example_runtime example_handlers
        [call_tool_1 @ [nl], list_tools_2 @ [nl]])
       = [events_found, tools_listed]"
proof -
  let ?request = "JObj [(''jsonrpc'', JStr ''2.0''), (''method'', JStr ''call_tool''),
    (''params'', JObj [(''name'', JStr ''list_events'')]), (''id'', JNum 1)]"
  have t: "String_trim example_runtime call_tool_1 \<noteq> []" by code_simp
  have p: "parse_JSON example_runtime (String_trim example_runtime call_tool_1) = Some ?request"
    by code_simp
  have v: "valid_request ?request" by code_simp
  have i: "get_prop ?request ''id'' = Some (JNum 1)" by simp
  have idle: "pending (run example_runtime example_handlers overtaking) = []" by code_simp
  have lines: "complete_lines (delivered overtaking) = [call_tool_1, list_tools_2]"
    by code_simp
  have lines': "complete_lines (concat [call_tool_1 @ [nl], list_tools_2 @ [nl]])
      = [call_tool_1, list_tools_2]"
    by code_simp
  have f1: "line_frames example_runtime example_handlers call_tool_1 = [events_found]"
    by code_simp
  have f2: "line_frames example_runtime example_handlers list_tools_2 = [tools_listed]"
    by code_simp
  from responses_once_and_sequentially_ordered
    [of example_runtime call_tool_1 ?request "JNum 1" example_handlers overtaking
      "[call_tool_1 @ [nl], list_tools_2 @ [nl]]"]
    t p v i idle
  have "(\<exists>r. line_frames example_runtime example_handlers call_tool_1 = [r] \<and> resp_id r = JNum 1)
    \<and> mset (written (run example_runtime example_handlers overtaking))
        = mset (concat (map (line_frames example_runtime example_handlers)
            (complete_lines (delivered overtaking))))
    \<and> written (run_sequential example_runtime example_handlers
          [call_tool_1 @ [nl], list_tools_2 @ [nl]])
        = concat (map (line_frames example_runtime example_handlers)
            (complete_lines (concat [call_tool_1 @ [nl], list_tools_2 @ [nl]])))"
    by simp
  then show ?thesis
    unfolding lines lines' using f1 f2 idle by (simp add: events_found_def)
qed

text \<open>
  C3, the claim as stated fails. Two requests arrive in two chunks, \<open>call_tool\<close>
  with id 1 and then \<open>list_tools\<close> with id 2, while the first is still being
  handled; the second is answered first, and its frame is written first.
\<close>

theorem later_response_overtakes:
  "complete_lines (delivered overtaking) = [call_tool_1, list_tools_2]
   \<and> line_frames example_runtime example_handlers call_tool_1 = [events_found]
   \<and> line_frames example_runtime example_handlers list_tools_2 = [tools_listed]
   \<and> written (run example_runtime example_handlers overtaking) = [tools_listed, events_found]"
  by code_simp

subsection \<open>Error responses\<close>

lemma dispatch_unknown:
  "m \<notin> known_methods \<Longrightarrow>
   dispatch rt hs (Some m) params = Inl (method_not_found rt (Some m))"
  by (simp add: dispatch_def known_methods_def)

lemma handleRequest_unknown:
  assumes "get_prop request ''method'' = Some m" and "m \<notin> known_methods"
    and "to_text rt m = Some text"
    and "get_prop request ''id'' = Some i" and "i \<noteq> JNull"
  shows "handleRequest rt hs request
     = Resolves (Some (ErrorResponse (- 32603) (JStr (''Method not found: '' @ text)) i))"
proof -
  have t: "template_text rt (Some m) = Some text"
    using assms(3) by (simp add: template_text_def)
  then have "method_not_found rt (Some m) = Error (''Method not found: '' @ text)"
    by (simp add: method_not_found_def)
  moreover have "catch_message rt (Some m) (Error (''Method not found: '' @ text))
      = Some (JStr (''Method not found: '' @ text))"
    using t catch_message_Error [of rt "Some m" "''Method not found: '' @ text"] by simp
  ultimately show ?thesis
    using assms(1,2,4,5)
    by (simp add: handleRequest_def dispatch_unknown respond_with_id)
qed

text \<open>
  C4, as amended. For a line that is not empty after trimming: if it is not valid
  JSON, the frame written is the error \<open>-32700\<close> with id \<open>null\<close>; if it is
  valid JSON with an id but no valid request (wrong version, no method), the frame is
  the error \<open>-32700\<close> with that id; if it is a valid request with a present id
  whose method is none of the four and has a text, the frame is the error \<open>-32603\<close>
  with the message \<open>Method not found: \<close> followed by that text, and that id. Nothing
  is said of a method that has no text.
\<close>

theorem error_responses:
  assumes "pending st = []" and "buffer st = []" and "nl \<notin> set l"
    and "String_trim rt l \<noteq> []"
  shows "(parse_JSON rt (String_trim rt l) = None \<longrightarrow>
            written (deliver rt hs st (l @ [nl]))
              = written st @ [ErrorResponse (- 32700) (JStr ''Parse error'') JNull])
     \<and> (\<forall>parsed i. parse_JSON rt (String_trim rt l) = Some parsed \<and> \<not> valid_request parsed
            \<and> get_prop parsed ''id'' = Some i \<longrightarrow>
            written (deliver rt hs st (l @ [nl]))
              = written st @ [ErrorResponse (- 32700) (JStr ''Parse error'') i])
     \<and> (\<forall>request m text i. parse_JSON rt (String_trim rt l) = Some request
            \<and> valid_request request
            \<and> get_prop request ''method'' = Some m \<and> m \<notin> known_methods
            \<and> to_text rt m = Some text
            \<and> get_prop request ''id'' = Some i \<and> i \<noteq> JNull \<longrightarrow>
            written (deliver rt hs st (l @ [nl]))
              = written st
                  @ [ErrorResponse (- 32603) (JStr (''Method not found: '' @ text)) i])"
proof -
  have w: "written (deliver rt hs st (l @ [nl])) = written st @ line_frames rt hs l"
    using deliver_line [OF assms(1-3), of rt hs] by simp
  have a: "parse_JSON rt (String_trim rt l) = None \<longrightarrow>
      line_frames rt hs l = [ErrorResponse (- 32700) (JStr ''Parse error'') JNull]"
    using line_frames_unparsable [OF assms(4), of hs] by simp
  have b: "\<forall>parsed i. parse_JSON rt (String_trim rt l) = Some parsed \<and> \<not> valid_request parsed
      \<and> get_prop parsed ''id'' = Some i \<longrightarrow>
      line_frames rt hs l = [ErrorResponse (- 32700) (JStr ''Parse error'') i]"
    using line_frames_invalid [OF assms(4), of _ hs]
    by (auto simp: or_null_def dest: truthy_has_prop)
  have c: "\<forall>request m text i. parse_JSON rt (String_trim rt l) = Some request
      \<and> valid_request request
      \<and> get_prop request ''method'' = Some m \<and> m \<notin> known_methods
      \<and> to_text rt m = Some text
      \<and> get_prop request ''id'' = Some i \<and> i \<noteq> JNull \<longrightarrow>
      line_frames rt hs l
        = [ErrorResponse (- 32603) (JStr (''Method not found: '' @ text)) i]"
    using line_frames_valid [OF assms(4), of _ hs]
    by (auto simp: response_frames_def handleRequest_unknown)
  from a b c show ?thesis unfolding w by simp
qed

theorem error_responses_witness:
  "written (deliver example_runtime example_handlers framer_init (not_json @ [nl]))
     = [ErrorResponse (- 32700) (JStr ''Parse error'') JNull]
   \<and> written (deliver example_runtime example_handlers framer_init (wrong_version_7 @ [nl]))
     = [ErrorResponse (- 32700) (JStr ''Parse error'') (JNum 7)]
   \<and> written (deliver example_runtime example_handlers framer_init (unknown_method_8 @ [nl]))
     = [ErrorResponse (- 32603) (JStr ''Method not found: shutdown'') (JNum 8)]"
proof -
  let ?wrong = "JObj [(''jsonrpc'', JStr ''1.0''), (''method'', JStr ''list_tools''), (''id'', JNum 7)]"
  let ?unknown = "JObj [(''jsonrpc'', JStr ''2.0''), (''method'', JStr ''shutdown''), (''id'', JNum 8)]"
  let ?rt = example_runtime
  have idle: "pending framer_init = []" "buffer framer_init = []"
    by (simp_all add: framer_init_def)
  have n1: "nl \<notin> set not_json" and t1: "String_trim ?rt not_json \<noteq> []"
    and p1: "parse_JSON ?rt (String_trim ?rt not_json) = None"
    by code_simp+
  have n2: "nl \<notin> set wrong_version_7" and t2: "String_trim ?rt wrong_version_7 \<noteq> []"
    and p2: "parse_JSON ?rt (String_trim ?rt wrong_version_7) = Some ?wrong"
    and v2: "\<not> valid_request ?wrong"
    by code_simp+
  have n3: "nl \<notin> set unknown_method_8" and t3: "String_trim ?rt unknown_method_8 \<noteq> []"
    and p3: "parse_JSON ?rt (String_trim ?rt unknown_method_8) = Some ?unknown"
    and v3: "valid_request ?unknown"
    by code_simp+
  have m3: "JStr ''shutdown'' \<notin> known_methods"
    by (simp add: known_methods_def)
  from error_responses [OF idle n1 t1, of example_handlers] p1
  have "written (deliver ?rt example_handlers framer_init (not_json @ [nl]))
     = [ErrorResponse (- 32700) (JStr ''Parse error'') JNull]"
    by (simp add: framer_init_def)
  moreover
  from error_responses [OF idle n2 t2, of example_handlers] p2 v2
  have "written (deliver ?rt example_handlers framer_init (wrong_version_7 @ [nl]))
     = [ErrorResponse (- 32700) (JStr ''Parse error'') (JNum 7)]"
    by (simp add: framer_init_def)
  moreover
  from error_responses [OF idle n3 t3, of example_handlers] p3 v3 m3
  have "written (deliver ?rt example_handlers framer_init (unknown_method_8 @ [nl]))
     = [ErrorResponse (- 32603) (JStr ''Method not found: shutdown'') (JNum 8)]"
    by (simp add: framer_init_def)
  ultimately show ?thesis by simp
qed

text \<open>
  C4, the claim as stated fails. An empty line and a line of blanks are not valid
  JSON, and the framer skips them: nothing is written. A request with an unknown
  method whose id is \<open>null\<close> is valid JSON with an id field, and gets no response
  either.
\<close>

theorem blank_line_gets_no_response:
  "parse_JSON example_runtime [] = None \<and> parse_JSON example_runtime ''  '' = None
   \<and> written (run_sequential example_runtime example_handlers [[nl], ''  '' @ [nl]]) = []
   \<and> parse_JSON example_runtime unknown_method_null
       = Some (JObj [(''jsonrpc'', JStr ''2.0''), (''method'', JStr ''shutdown''), (''id'', JNull)])
   \<and> written (run_sequential example_runtime example_handlers [unknown_method_null @ [nl]]) = []"
  by code_simp

section \<open>Properties of plugin discovery\<close>

lemma map_of_map_set [simp]: "map_of (map_set k v kvs) = (map_of kvs)(k \<mapsto> v)"
  by (induction kvs) auto


















text \<open>
  When the module of a directory throws \<open>null\<close>, the loop is left: the directory
  \<open>gcalendar\<close> after it is never loaded, and the process exits.
\<close>

lemma import_throws_null:
  "fst (discoverAndLoadServers example_runtime throws_null ''/srv'') = []
   \<and> map fst (snd (discoverAndLoadServers example_runtime throws_null ''/srv''))
       = [INFO, ERROR, INFO]
   \<and> snd (discoverAndLoadServers example_runtime throws_null ''/srv'') ! 1
       = error_reading ''/srv'' ''Cannot read properties of null''"
  by code_simp




section \<open>Properties of the authentication clients\<close>








text \<open>
  C9, as amended. \<open>createAuthClient\<close> never reaches its trailing \<open>throw\<close>: it
  ends in the first, second or third statement. With a client type it returns the
  constructed object, or throws what the constructor throws; otherwise, when the
  environment variable lower-cases to \<open>gumloop\<close>, it returns a
  \<open>GumloopAuthClient\<close>; otherwise it returns a \<open>LocalAuthClient\<close>, or throws
  what that constructor throws.
\<close>

theorem createAuthClient_selects:
  "createAuthClient clientType key env projectRoot fs =
     (case clientType of
        Some (Inr client) \<Rightarrow> (Return (OfClientType client), fs)
      | Some (Inl e) \<Rightarrow> (Throw e, fs)
      | None \<Rightarrow>
          (if toLowerCase (first_truthy (env ''ENVIRONMENT'') ''local'') = ''gumloop''
           then (Return (Gumloop (new_GumloopAuthClient (or_undefined key) env)), fs)
           else (case new_LocalAuthClient None None env projectRoot fs of
                   (Inr client, fs1) \<Rightarrow> (Return (Local client), fs1)
                 | (Inl e, fs1) \<Rightarrow> (Throw e, fs1))))"
  by (simp add: createAuthClient_def and_then_def Let_def split: option.splits sum.splits prod.splits)

theorem createAuthClient_selects_witness:
  "fst (createAuthClient (Some (Inr (7::nat))) None unset ''/app'' Map.empty)
     = Return (OfClientType 7)
   \<and> fst (createAuthClient (None :: (string + nat) option) (Some ''key'') production ''/app'' Map.empty)
     = Return (Gumloop \<lparr>apiBaseUrl = ''https://api.gumloop.com/api/v1'',
                         gumloopApiKey = Some ''key''\<rparr>)
   \<and> fst (createAuthClient (None :: (string + nat) option) None unset ''/app'' Map.empty)
     = Return (Local local_client)"
proof -
  have env: "toLowerCase (first_truthy (production ''ENVIRONMENT'') ''local'') = ''gumloop''"
    "toLowerCase (first_truthy (unset ''ENVIRONMENT'') ''local'') \<noteq> ''gumloop''"
    by code_simp+
  have gum: "new_GumloopAuthClient (or_undefined (Some ''key'')) production
      = \<lparr>apiBaseUrl = ''https://api.gumloop.com/api/v1'', gumloopApiKey = Some ''key''\<rparr>"
    by (simp add: new_GumloopAuthClient_def or_undefined_def production_def first_truthy_def)
  have loc: "fst (new_LocalAuthClient None None unset ''/app'' Map.empty) = Inr local_client"
    by (simp add: new_LocalAuthClient_def unset_def first_truthy_def path_join_def
        mkdir_if_set_def mkdirSync_def local_client_def Let_def)
  have 1: "fst (createAuthClient (Some (Inr (7::nat))) None unset ''/app'' Map.empty)
      = Return (OfClientType 7)"
    using createAuthClient_selects [of "Some (Inr (7::nat))" None unset "''/app''" Map.empty]
    by simp
  have 2: "fst (createAuthClient (None :: (string + nat) option) (Some ''key'') production
        ''/app'' Map.empty)
      = Return (Gumloop \<lparr>apiBaseUrl = ''https://api.gumloop.com/api/v1'',
                          gumloopApiKey = Some ''key''\<rparr>)"
    using createAuthClient_selects [of "None :: (string + nat) option" "Some ''key''" production
        "''/app''" Map.empty] env(1) gum
    by simp
  obtain fs1 where loc': "new_LocalAuthClient None None unset ''/app'' Map.empty
      = (Inr local_client, fs1)"
    using loc by (cases "new_LocalAuthClient None None unset ''/app'' Map.empty") auto
  have 3: "fst (createAuthClient (None :: (string + nat) option) None unset ''/app'' Map.empty)
      = Return (Local local_client)"
    using createAuthClient_selects [of "None :: (string + nat) option" None unset "''/app''"
        Map.empty] env(2) loc'
    by simp
  from 1 2 3 show ?thesis by blast
qed

text \<open>
  C9, the claim as stated fails. The constructor of the client type throws, and so
  does \<open>createAuthClient\<close>; and without a client type, when the path of the
  credentials directory is a regular file, the constructor of \<open>LocalAuthClient\<close>
  throws.
\<close>

theorem createAuthClient_throws:
  "fst (createAuthClient (Some (Inl ''boom'' :: string + nat)) None unset ''/app'' Map.empty)
     = Throw ''boom''
   \<and> fst (createAuthClient (None :: (string + nat) option) None unset ''/app''
            [''/app/local_auth/credentials'' \<mapsto> File ''not a directory''])
     = Throw (''EEXIST: file already exists, mkdir '' @ quoted ''/app/local_auth/credentials'')"
proof -
  have env: "toLowerCase (first_truthy (unset ''ENVIRONMENT'') ''local'') \<noteq> ''gumloop''"
    by code_simp
  have loc: "new_LocalAuthClient None None unset ''/app''
        [''/app/local_auth/credentials'' \<mapsto> File ''not a directory'']
      = (Inl (''EEXIST: file already exists, mkdir '' @ quoted ''/app/local_auth/credentials''),
         [''/app/local_auth/credentials'' \<mapsto> File ''not a directory'',
          ''/app/local_auth/oauth_configs'' \<mapsto> Directory])"
    by (simp add: new_LocalAuthClient_def unset_def first_truthy_def path_join_def
        mkdir_if_set_def mkdirSync_def Let_def)
  show ?thesis
    using env loc
    by (simp add: createAuthClient_def and_then_def Let_def)
qed

section \<open>Properties of the session gateway\<close>

subsection \<open>Teardown and the active-connection gauge\<close>

lemma gauge_update_connection [simp]:
  "activeConnections (update_connection conn f g) = activeConnections g"
  by (simp add: update_connection_def)

lemma transports_update_connection [simp]:
  "userSessionTransports (update_connection conn f g) = userSessionTransports g"
  by (simp add: update_connection_def)

lemma instances_update_connection [simp]:
  "userServerInstances (update_connection conn f g) = userServerInstances g"
  by (simp add: update_connection_def)

text \<open>
  When the close event fires first, the \<open>finally\<close> block finds no transport and
  leaves the gauge alone: one decrement in all.
\<close>

lemma close_then_settle_decrements_once:
  "t \<in> {RunReturns, RunThrows} \<Longrightarrow>
   activeConnections (teardown serverName sessionKey conn [CloseEvent, t] g) serverName
     = activeConnections g serverName - 1"
  by (auto simp: teardown_def on_close_def run_finally_def run_returned_def run_threw_def)

text \<open>
  When the run call settles first, the \<open>finally\<close> block decrements, and the close
  handler, which does not look at the transport map, decrements again.
\<close>

lemma settle_then_close_decrements_twice:
  "t \<in> {RunReturns, RunThrows} \<Longrightarrow> userSessionTransports g sessionKey \<noteq> None \<Longrightarrow>
   activeConnections (teardown serverName sessionKey conn [t, CloseEvent] g) serverName
     = activeConnections g serverName - 2"
  by (auto simp: teardown_def on_close_def run_finally_def run_returned_def run_threw_def)

lemma session_alice_accepted:
  "sse_accept ''gcalendar'' FunctionShaped ''alice'' (gateway_init :: unit gateway)
     = Inr (\<lparr>ref = 0, userId = Some ''alice'', apiKey = None\<rparr>, 0, session_alice)"
  by (simp add: session_alice_def sse_accept_def get_or_create_def gateway_init_def
      session_key_def parse_identity_def createServerInstance_def)

text \<open>
  C1. The claim: over any combination of teardown triggers the gauge of the plugin is
  decremented exactly once. On the code: one session of \<open>gcalendar\<close> is accepted
  (gauge 1, transport registered under \<open>gcalendar:alice\<close>); the plugin's run call
  returns, and then the close event of the request fires. The transport is gone after
  the first trigger, but the gauge ends at \<open>-1\<close>: it was decremented twice.
\<close>

theorem teardown_run_returns_then_close_gauge:
  "activeConnections session_alice ''gcalendar'' = 1
   \<and> userSessionTransports session_alice ''gcalendar:alice'' = Some 0
   \<and> userSessionTransports
        (teardown ''gcalendar'' ''gcalendar:alice'' 0 [RunReturns] session_alice)
        ''gcalendar:alice'' = None
   \<and> activeConnections
        (teardown ''gcalendar'' ''gcalendar:alice'' 0 [RunReturns, CloseEvent] session_alice)
        ''gcalendar'' = - 1"
  by (simp add: session_alice_def teardown_def on_close_def run_finally_def run_returned_def
      sse_accept_def get_or_create_def gateway_init_def session_key_def parse_identity_def
      createServerInstance_def)

text \<open>
  The gauge is incremented only when an instance is created, and decremented at every
  teardown: a second connection on the same session key reuses the instance, and its
  teardown takes the gauge below zero.
\<close>

lemma reconnect_cycle_gauge:
  "activeConnections (on_close ''gcalendar'' ''gcalendar:alice'' 0 session_alice) ''gcalendar'' = 0
   \<and> activeConnections
        (snd (snd (projr (sse_accept ''gcalendar'' FunctionShaped ''alice''
           (on_close ''gcalendar'' ''gcalendar:alice'' 0 session_alice)))))
        ''gcalendar'' = 0
   \<and> activeConnections
        (on_close ''gcalendar'' ''gcalendar:alice'' 1
           (snd (snd (projr (sse_accept ''gcalendar'' FunctionShaped ''alice''
              (on_close ''gcalendar'' ''gcalendar:alice'' 0 session_alice))))))
        ''gcalendar'' = - 1"
  by (simp add: session_alice_def on_close_def sse_accept_def get_or_create_def gateway_init_def
      session_key_def parse_identity_def createServerInstance_def Let_def)

subsection \<open>Reuse of server instances\<close>

lemma get_or_create_existing:
  "userServerInstances g (session_key serverName k) = Some inst \<Longrightarrow>
   get_or_create serverName factory k g = Inr (inst, False, g)"
  by (simp add: get_or_create_def Let_def split: prod.splits)

lemma get_or_create_result:
  "get_or_create serverName factory k g = Inr (inst, isNew, g') \<Longrightarrow>
   (if isNew
    then userServerInstances g (session_key serverName k) = None
         \<and> factory \<noteq> NotAFunction
         \<and> ref inst = instancesCreated g
         \<and> instancesCreated g' = Suc (instancesCreated g)
         \<and> userServerInstances g' = (userServerInstances g)(session_key serverName k \<mapsto> inst)
    else userServerInstances g (session_key serverName k) = Some inst \<and> g' = g)"
  by (auto simp: get_or_create_def createServerInstance_def Let_def
      split: prod.splits option.splits sum.splits serverFactory.splits)

lemma sse_accept_existing:
  assumes "userServerInstances g (session_key serverName k) = Some inst"
  shows "\<exists>conn g'. sse_accept serverName factory k g = Inr (inst, conn, g')
         \<and> userServerInstances g' = userServerInstances g
         \<and> instancesCreated g' = instancesCreated g
         \<and> activeConnections g' = activeConnections g"
  using assms by (simp add: sse_accept_def get_or_create_existing Let_def)

lemma sse_accept_constructs:
  assumes acc: "sse_accept serverName factory k g = Inr (inst', conn, g')"
    and changed: "instancesCreated g' \<noteq> instancesCreated g"
  shows "userServerInstances g (session_key serverName k) = None
          \<and> factory \<noteq> NotAFunction
          \<and> ref inst' = instancesCreated g
          \<and> instancesCreated g' = Suc (instancesCreated g)
          \<and> userServerInstances g' (session_key serverName k) = Some inst'"
proof -
  from acc obtain isNew g1 where
    goc: "get_or_create serverName factory k g = Inr (inst', isNew, g1)"
    and g': "g' = g1\<lparr>connectionTotal := (connectionTotal g1)
                     (serverName := connectionTotal g1 serverName + 1),
                   connections := connections g1 @ [new_connection],
                   userSessionTransports := (userSessionTransports g1)
                     (session_key serverName k \<mapsto> length (connections g1))\<rparr>"
    by (auto simp: sse_accept_def Let_def split: sum.splits prod.splits)
  from changed g' have "instancesCreated g1 \<noteq> instancesCreated g" by simp
  with get_or_create_result [OF goc] have new: "isNew"
    by (auto split: if_splits)
  with get_or_create_result [OF goc] g' show ?thesis by simp
qed

text \<open>
  C6. A connection on a session key that has an instance in the instance map is
  served by that very instance (the same \<open>ref\<close>, the same object), the map is
  unchanged and nothing is constructed. Whenever accepting a connection constructs an
  instance, the map had no entry for the session key, and the new instance is the one
  stored and returned.
\<close>

theorem sse_accept_reuses_instance:
  "(userServerInstances g (session_key serverName k) = Some inst \<longrightarrow>
      (\<exists>conn g'. sse_accept serverName factory k g = Inr (inst, conn, g')
         \<and> userServerInstances g' = userServerInstances g
         \<and> instancesCreated g' = instancesCreated g
         \<and> activeConnections g' = activeConnections g))
   \<and> (\<forall>inst' conn g'.
        sse_accept serverName factory k g = Inr (inst', conn, g')
          \<and> instancesCreated g' \<noteq> instancesCreated g \<longrightarrow>
        userServerInstances g (session_key serverName k) = None
          \<and> factory \<noteq> NotAFunction
          \<and> ref inst' = instancesCreated g
          \<and> instancesCreated g' = Suc (instancesCreated g)
          \<and> userServerInstances g' (session_key serverName k) = Some inst')"
  using sse_accept_existing [of g serverName k inst factory]
    sse_accept_constructs [of serverName factory k g]
  by blast

theorem sse_accept_reuses_instance_witness:
  "userServerInstances session_alice (session_key ''gcalendar'' ''alice'')
     = Some \<lparr>ref = 0, userId = Some ''alice'', apiKey = None\<rparr>
   \<and> (\<exists>conn g'. sse_accept ''gcalendar'' FunctionShaped ''alice'' session_alice
         = Inr (\<lparr>ref = 0, userId = Some ''alice'', apiKey = None\<rparr>, conn, g')
       \<and> instancesCreated g' = instancesCreated session_alice)
   \<and> (\<exists>inst conn g'. sse_accept ''gcalendar'' FunctionShaped ''alice'' (gateway_init :: unit gateway)
         = Inr (inst, conn, g')
       \<and> instancesCreated g' \<noteq> instancesCreated (gateway_init :: unit gateway)
       \<and> userServerInstances (gateway_init :: unit gateway) (session_key ''gcalendar'' ''alice'') = None
       \<and> userServerInstances g' (session_key ''gcalendar'' ''alice'') = Some inst)"
proof -
  have stored: "userServerInstances session_alice (session_key ''gcalendar'' ''alice'')
     = Some \<lparr>ref = 0, userId = Some ''alice'', apiKey = None\<rparr>"
    by (simp add: session_alice_def sse_accept_def get_or_create_def gateway_init_def
        session_key_def parse_identity_def createServerInstance_def)
  have created: "instancesCreated session_alice \<noteq> instancesCreated (gateway_init :: unit gateway)"
    by (simp add: session_alice_def sse_accept_def get_or_create_def gateway_init_def
        session_key_def parse_identity_def createServerInstance_def)
  from sse_accept_reuses_instance
    [of session_alice "''gcalendar''" "''alice''"
      "\<lparr>ref = 0, userId = Some ''alice'', apiKey = None\<rparr>" FunctionShaped] stored
  have reuse: "\<exists>conn g'. sse_accept ''gcalendar'' FunctionShaped ''alice'' session_alice
         = Inr (\<lparr>ref = 0, userId = Some ''alice'', apiKey = None\<rparr>, conn, g')
       \<and> instancesCreated g' = instancesCreated session_alice"
    by blast
  from sse_accept_reuses_instance
    [of "gateway_init :: unit gateway" "''gcalendar''" "''alice''"
      "\<lparr>ref = 0, userId = Some ''alice'', apiKey = None\<rparr>" FunctionShaped]
    session_alice_accepted created
  have fresh: "userServerInstances (gateway_init :: unit gateway) (session_key ''gcalendar'' ''alice'') = None
     \<and> userServerInstances session_alice (session_key ''gcalendar'' ''alice'')
         = Some \<lparr>ref = 0, userId = Some ''alice'', apiKey = None\<rparr>"
    by blast
  from stored reuse fresh session_alice_accepted created show ?thesis by blast
qed

subsection \<open>Posting a message\<close>

lemma post_message_unknown:
  "userSessionTransports g (session_key serverName k) = None \<Longrightarrow>
   post_message rt listener serverName k body (g, s) = (Sends 404 SessionNotFound, g, s)"
  by (simp add: post_message_def)

lemma post_message_null:
  assumes "userSessionTransports g (session_key serverName k) = Some conn"
  shows "post_message rt listener serverName k None (g, s)
     = (Sends 202 Accepted,
        update_connection conn (\<lambda>_. (connections g ! conn)\<lparr>readEnded := True\<rparr>) g, s)"
  using assms by (simp add: post_message_def push_message_def)

lemma post_message_dropped:
  assumes "userSessionTransports g (session_key serverName k) = Some conn"
    and "conn < length (connections g)"
    and "readEnded (connections g ! conn) \<or> readDestroyed (connections g ! conn)"
  shows "fst (post_message rt listener serverName k (Some m) (g, s)) = Sends 202 Accepted
     \<and> inbox (connections (fst (snd (post_message rt listener serverName k (Some m) (g, s)))) ! conn)
         = inbox (connections g ! conn)
     \<and> snd (snd (post_message rt listener serverName k (Some m) (g, s))) = s"
  using assms by (auto simp: post_message_def push_message_def update_connection_def)

lemma post_message_pushed:
  assumes "userSessionTransports g (session_key serverName k) = Some conn"
    and "\<not> readEnded (connections g ! conn)" and "\<not> readDestroyed (connections g ! conn)"
    and "listener m s = Inr s'"
  shows "post_message rt listener serverName k (Some m) (g, s)
     = (Sends 202 Accepted,
        update_connection conn
          (\<lambda>_. (connections g ! conn)\<lparr>inbox := inbox (connections g ! conn) @ [m]\<rparr>) g,
        s')"
  using assms by (simp add: post_message_def push_message_def)

lemma post_message_push_throws:
  assumes "userSessionTransports g (session_key serverName k) = Some conn"
    and "\<not> readEnded (connections g ! conn)" and "\<not> readDestroyed (connections g ! conn)"
    and "listener m s = Inl e" and "message_text rt e = Some text"
  shows "post_message rt listener serverName k (Some m) (g, s)
     = (Sends 500 FailedToProcess, g, s)"
  using assms by (simp add: post_message_def push_message_def)

lemma post_message_maps:
  "userSessionTransports (fst (snd (post_message rt listener serverName k body (g, s))))
     = userSessionTransports g
   \<and> userServerInstances (fst (snd (post_message rt listener serverName k body (g, s))))
     = userServerInstances g"
  by (auto simp: post_message_def split: option.splits sum.splits prod.splits)

lemma post_message_not_awaited:
  assumes "userSessionTransports g (session_key serverName k) = Some conn"
    and "\<not> readEnded (connections g ! conn)" and "\<not> readDestroyed (connections g ! conn)"
    and "pending st = []" and "buffer st = []" and "nl \<notin> set l"
    and "String_trim rt l \<noteq> []" and "parse_JSON rt (String_trim rt l) = Some request"
    and "valid_request request"
  shows "fst (post_message rt (data_listener rt) serverName k (Some (l @ [nl])) (g, st))
       = Sends 202 Accepted
     \<and> snd (snd (post_message rt (data_listener rt) serverName k (Some (l @ [nl])) (g, st)))
       = st\<lparr>pending := [request]\<rparr>"
proof -
  have "data_listener rt (l @ [nl]) st = Inr (st\<lparr>pending := [request]\<rparr>)"
    using on_data_request [OF assms(4-9)] by (simp add: data_listener_def)
  with post_message_pushed
    [of g serverName k conn "data_listener rt" "l @ [nl]" st "st\<lparr>pending := [request]\<rparr>" rt]
    assms(1-3)
  show ?thesis by simp
qed

text \<open>
  C7, as amended. A post to a session key without a registered transport is answered
  with 404 and the state is unchanged: nothing is queued and no map is touched. A post
  to a session key with a registered transport pushes the body into the message
  emitter of that transport. A body that is \<open>null\<close> queues nothing and ends the
  stream of messages, and the answer is 202. A body that is not \<open>null\<close> is queued as
  one message, after those queued before, when the stream has neither ended nor
  been destroyed and no listener throws, and the answer is 202; on a stream that has
  ended or was destroyed nothing is queued, and the answer is 202. When a listener
  throws an error, the answer is 500 and the state is unchanged. No post touches the
  two maps. The answer does not wait for the message to be processed: with the data
  listener of the plugin on the emitter, a body that holds one line with a valid
  request is answered with 202 while the request is pending, before anything is
  written for it.
\<close>

theorem post_message_routes:
  "(userSessionTransports g (session_key serverName k) = None \<longrightarrow>
      post_message rt listener serverName k body (g, s) = (Sends 404 SessionNotFound, g, s))
   \<and> (\<forall>conn c. userSessionTransports g (session_key serverName k) = Some conn
          \<and> conn < length (connections g) \<and> c = connections g ! conn \<longrightarrow>
        (body = None \<longrightarrow>
           post_message rt listener serverName k body (g, s)
             = (Sends 202 Accepted, update_connection conn (\<lambda>_. c\<lparr>readEnded := True\<rparr>) g, s))
        \<and> (\<forall>m. body = Some m \<and> (readEnded c \<or> readDestroyed c) \<longrightarrow>
             fst (post_message rt listener serverName k body (g, s)) = Sends 202 Accepted
             \<and> inbox (connections (fst (snd (post_message rt listener serverName k body (g, s))))
                       ! conn) = inbox c
             \<and> snd (snd (post_message rt listener serverName k body (g, s))) = s)
        \<and> (\<forall>m s'. body = Some m \<and> \<not> readEnded c \<and> \<not> readDestroyed c
               \<and> listener m s = Inr s' \<longrightarrow>
             post_message rt listener serverName k body (g, s)
               = (Sends 202 Accepted,
                  update_connection conn (\<lambda>_. c\<lparr>inbox := inbox c @ [m]\<rparr>) g, s'))
        \<and> (\<forall>m e text. body = Some m \<and> \<not> readEnded c \<and> \<not> readDestroyed c
               \<and> listener m s = Inl e \<and> message_text rt e = Some text \<longrightarrow>
             post_message rt listener serverName k body (g, s)
               = (Sends 500 FailedToProcess, g, s)))
   \<and> userSessionTransports (fst (snd (post_message rt listener serverName k body (g, s))))
       = userSessionTransports g
   \<and> userServerInstances (fst (snd (post_message rt listener serverName k body (g, s))))
       = userServerInstances g
   \<and> (\<forall>conn request. userSessionTransports gs (session_key serverName k) = Some conn
          \<and> \<not> readEnded (connections gs ! conn) \<and> \<not> readDestroyed (connections gs ! conn)
          \<and> pending st = [] \<and> buffer st = [] \<and> nl \<notin> set l
          \<and> String_trim rt l \<noteq> [] \<and> parse_JSON rt (String_trim rt l) = Some request
          \<and> valid_request request \<longrightarrow>
        fst (post_message rt (data_listener rt) serverName k (Some (l @ [nl])) (gs, st))
          = Sends 202 Accepted
        \<and> snd (snd (post_message rt (data_listener rt) serverName k (Some (l @ [nl])) (gs, st)))
          = st\<lparr>pending := [request]\<rparr>)"
proof -
  have a: "userSessionTransports g (session_key serverName k) = None \<longrightarrow>
      post_message rt listener serverName k body (g, s) = (Sends 404 SessionNotFound, g, s)"
    using post_message_unknown [of g serverName k rt listener body s] by blast
  have b: "\<forall>conn c. userSessionTransports g (session_key serverName k) = Some conn
          \<and> conn < length (connections g) \<and> c = connections g ! conn \<longrightarrow>
        (body = None \<longrightarrow>
           post_message rt listener serverName k body (g, s)
             = (Sends 202 Accepted, update_connection conn (\<lambda>_. c\<lparr>readEnded := True\<rparr>) g, s))
        \<and> (\<forall>m. body = Some m \<and> (readEnded c \<or> readDestroyed c) \<longrightarrow>
             fst (post_message rt listener serverName k body (g, s)) = Sends 202 Accepted
             \<and> inbox (connections (fst (snd (post_message rt listener serverName k body (g, s))))
                       ! conn) = inbox c
             \<and> snd (snd (post_message rt listener serverName k body (g, s))) = s)
        \<and> (\<forall>m s'. body = Some m \<and> \<not> readEnded c \<and> \<not> readDestroyed c
               \<and> listener m s = Inr s' \<longrightarrow>
             post_message rt listener serverName k body (g, s)
               = (Sends 202 Accepted,
                  update_connection conn (\<lambda>_. c\<lparr>inbox := inbox c @ [m]\<rparr>) g, s'))
        \<and> (\<forall>m e text. body = Some m \<and> \<not> readEnded c \<and> \<not> readDestroyed c
               \<and> listener m s = Inl e \<and> message_text rt e = Some text \<longrightarrow>
             post_message rt listener serverName k body (g, s)
               = (Sends 500 FailedToProcess, g, s))"
  proof (intro allI impI, elim conjE)
    fix conn c
    assume t: "userSessionTransports g (session_key serverName k) = Some conn"
      and r: "conn < length (connections g)" and c: "c = connections g ! conn"
    have 1: "body = None \<longrightarrow>
           post_message rt listener serverName k body (g, s)
             = (Sends 202 Accepted, update_connection conn (\<lambda>_. c\<lparr>readEnded := True\<rparr>) g, s)"
      using post_message_null [OF t, of rt listener s] c by simp
    have 2: "\<forall>m. body = Some m \<and> (readEnded c \<or> readDestroyed c) \<longrightarrow>
             fst (post_message rt listener serverName k body (g, s)) = Sends 202 Accepted
             \<and> inbox (connections (fst (snd (post_message rt listener serverName k body (g, s))))
                       ! conn) = inbox c
             \<and> snd (snd (post_message rt listener serverName k body (g, s))) = s"
      using post_message_dropped [OF t r, of rt listener _ s] c by blast
    have 3: "\<forall>m s'. body = Some m \<and> \<not> readEnded c \<and> \<not> readDestroyed c
               \<and> listener m s = Inr s' \<longrightarrow>
             post_message rt listener serverName k body (g, s)
               = (Sends 202 Accepted,
                  update_connection conn (\<lambda>_. c\<lparr>inbox := inbox c @ [m]\<rparr>) g, s')"
      using post_message_pushed [OF t, of listener _ s _ rt] c by blast
    have 4: "\<forall>m e text. body = Some m \<and> \<not> readEnded c \<and> \<not> readDestroyed c
               \<and> listener m s = Inl e \<and> message_text rt e = Some text \<longrightarrow>
             post_message rt listener serverName k body (g, s)
               = (Sends 500 FailedToProcess, g, s)"
      using post_message_push_throws [OF t, of listener _ s _ rt] c by blast
    from 1 2 3 4 show "(body = None \<longrightarrow>
           post_message rt listener serverName k body (g, s)
             = (Sends 202 Accepted, update_connection conn (\<lambda>_. c\<lparr>readEnded := True\<rparr>) g, s))
        \<and> (\<forall>m. body = Some m \<and> (readEnded c \<or> readDestroyed c) \<longrightarrow>
             fst (post_message rt listener serverName k body (g, s)) = Sends 202 Accepted
             \<and> inbox (connections (fst (snd (post_message rt listener serverName k body (g, s))))
                       ! conn) = inbox c
             \<and> snd (snd (post_message rt listener serverName k body (g, s))) = s)
        \<and> (\<forall>m s'. body = Some m \<and> \<not> readEnded c \<and> \<not> readDestroyed c
               \<and> listener m s = Inr s' \<longrightarrow>
             post_message rt listener serverName k body (g, s)
               = (Sends 202 Accepted,
                  update_connection conn (\<lambda>_. c\<lparr>inbox := inbox c @ [m]\<rparr>) g, s'))
        \<and> (\<forall>m e text. body = Some m \<and> \<not> readEnded c \<and> \<not> readDestroyed c
               \<and> listener m s = Inl e \<and> message_text rt e = Some text \<longrightarrow>
             post_message rt listener serverName k body (g, s)
               = (Sends 500 FailedToProcess, g, s))"
      by blast
  qed
  have d: "\<forall>conn request. userSessionTransports gs (session_key serverName k) = Some conn
          \<and> \<not> readEnded (connections gs ! conn) \<and> \<not> readDestroyed (connections gs ! conn)
          \<and> pending st = [] \<and> buffer st = [] \<and> nl \<notin> set l
          \<and> String_trim rt l \<noteq> [] \<and> parse_JSON rt (String_trim rt l) = Some request
          \<and> valid_request request \<longrightarrow>
        fst (post_message rt (data_listener rt) serverName k (Some (l @ [nl])) (gs, st))
          = Sends 202 Accepted
        \<and> snd (snd (post_message rt (data_listener rt) serverName k (Some (l @ [nl])) (gs, st)))
          = st\<lparr>pending := [request]\<rparr>"
    using post_message_not_awaited [of gs serverName k _ st l rt] by blast
  from a b post_message_maps [of rt listener serverName k body g s] d
  show ?thesis by blast
qed

theorem post_message_routes_witness:
  "userSessionTransports session_alice (session_key ''gcalendar'' ''bob'') = None
   \<and> post_message example_runtime no_listener ''gcalendar'' ''bob'' (Some ()) (session_alice, ())
       = (Sends 404 SessionNotFound, session_alice, ())
   \<and> userSessionTransports session_alice (session_key ''gcalendar'' ''alice'') = Some 0
   \<and> 0 < length (connections session_alice)
   \<and> post_message example_runtime no_listener ''gcalendar'' ''alice'' (Some ())
         (session_alice, ())
       = (Sends 202 Accepted,
          update_connection 0 (\<lambda>_. new_connection\<lparr>inbox := [()]\<rparr>) session_alice, ())
   \<and> fst (post_message example_runtime (data_listener example_runtime) ''gcalendar'' ''alice''
            (Some (list_tools_2 @ [nl])) (session_text, framer_init))
       = Sends 202 Accepted
   \<and> snd (snd (post_message example_runtime (data_listener example_runtime) ''gcalendar''
            ''alice'' (Some (list_tools_2 @ [nl])) (session_text, framer_init)))
       = framer_init\<lparr>pending := [JObj [(''jsonrpc'', JStr ''2.0''),
           (''method'', JStr ''list_tools''), (''id'', JNum 2)]]\<rparr>"
proof -
  let ?rt = example_runtime
  let ?request = "JObj [(''jsonrpc'', JStr ''2.0''), (''method'', JStr ''list_tools''),
    (''id'', JNum 2)]"
  have bob: "userSessionTransports session_alice (session_key ''gcalendar'' ''bob'') = None"
    by (simp add: session_alice_def sse_accept_def get_or_create_def gateway_init_def
        session_key_def parse_identity_def createServerInstance_def)
  have alice: "userSessionTransports session_alice (session_key ''gcalendar'' ''alice'') = Some 0"
    by (simp add: session_alice_def sse_accept_def get_or_create_def gateway_init_def
        session_key_def parse_identity_def createServerInstance_def)
  have conn: "0 < length (connections session_alice)"
    and fresh: "connections session_alice ! 0 = new_connection"
    by (simp_all add: session_alice_def sse_accept_def get_or_create_def gateway_init_def
        session_key_def parse_identity_def createServerInstance_def)
  have live: "\<not> readEnded (new_connection :: unit connection)"
    "\<not> readDestroyed (new_connection :: unit connection)"
    "inbox (new_connection :: unit connection) = []"
    by (simp_all add: new_connection_def)
  have texts: "userSessionTransports session_text (session_key ''gcalendar'' ''alice'') = Some 0"
    "\<not> readEnded (connections session_text ! 0)" "\<not> readDestroyed (connections session_text ! 0)"
    by (simp_all add: session_text_def sse_accept_def get_or_create_def gateway_init_def
        session_key_def parse_identity_def createServerInstance_def new_connection_def)
  have idle: "pending framer_init = []" "buffer framer_init = []"
    by (simp_all add: framer_init_def)
  have line: "nl \<notin> set list_tools_2" "String_trim ?rt list_tools_2 \<noteq> []"
    "parse_JSON ?rt (String_trim ?rt list_tools_2) = Some ?request" "valid_request ?request"
    by code_simp+
  from post_message_routes [of session_alice "''gcalendar''" "''bob''" ?rt no_listener
      "Some ()" "()" session_text framer_init list_tools_2] bob
  have 1: "post_message ?rt no_listener ''gcalendar'' ''bob'' (Some ()) (session_alice, ())
      = (Sends 404 SessionNotFound, session_alice, ())"
    by blast
  from post_message_routes [of session_alice "''gcalendar''" "''alice''" ?rt no_listener
      "Some ()" "()" session_text framer_init list_tools_2] alice conn fresh live
  have 2: "post_message ?rt no_listener ''gcalendar'' ''alice'' (Some ()) (session_alice, ())
       = (Sends 202 Accepted,
          update_connection 0 (\<lambda>_. new_connection\<lparr>inbox := [()]\<rparr>) session_alice, ())"
    by (simp add: no_listener_def)
  from post_message_routes [of session_alice "''gcalendar''" "''alice''" ?rt no_listener
      "Some ()" "()" session_text framer_init list_tools_2] texts idle line
  have 3: "fst (post_message ?rt (data_listener ?rt) ''gcalendar'' ''alice''
            (Some (list_tools_2 @ [nl])) (session_text, framer_init))
       = Sends 202 Accepted
   \<and> snd (snd (post_message ?rt (data_listener ?rt) ''gcalendar''
            ''alice'' (Some (list_tools_2 @ [nl])) (session_text, framer_init)))
       = framer_init\<lparr>pending := [?request]\<rparr>"
    by blast
  from 1 2 3 bob alice conn show ?thesis by blast
qed

text \<open>
  C7, the claim as stated fails. A transport is registered for the session key. When
  a listener throws, the answer is 500, not 202. When the body is \<open>null\<close>, the answer
  is 202, but no message is queued: the stream of messages has ended.
\<close>

theorem post_message_push_failure:
  "userSessionTransports session_alice (session_key ''gcalendar'' ''alice'') = Some 0
   \<and> fst (post_message example_runtime failing_listener ''gcalendar'' ''alice'' (Some ())
            (session_alice, ()))
       = Sends 500 FailedToProcess
   \<and> fst (post_message example_runtime no_listener ''gcalendar'' ''alice'' None
            (session_alice, ()))
       = Sends 202 Accepted
   \<and> inbox (connections (fst (snd (post_message example_runtime no_listener ''gcalendar''
        ''alice'' None (session_alice, ())))) ! 0) = []
   \<and> readEnded (connections (fst (snd (post_message example_runtime no_listener ''gcalendar''
        ''alice'' None (session_alice, ())))) ! 0)"
  by (simp add: post_message_def push_message_def failing_listener_def no_listener_def
      update_connection_def new_connection_def message_text_def Error_def template_text_def
      session_alice_def sse_accept_def get_or_create_def
      gateway_init_def session_key_def parse_identity_def createServerInstance_def)

subsection \<open>Writing to the SSE stream\<close>

lemma sse_event_lines:
  "sse_event s = concat (map (\<lambda>line. ''data: '' @ line @ [nl]) (js_split nl s)) @ [nl]"
proof -
  have "js_join [nl] (map (\<lambda>line. ''data: '' @ line) ps) @ [nl]
      = concat (map (\<lambda>line. ''data: '' @ line @ [nl]) ps)" if "ps \<noteq> []" for ps :: "string list"
    using that
  proof (induction ps)
    case Nil
    then show ?case by simp
  next
    case (Cons p ps)
    then show ?case by (cases ps) auto
  qed
  from this [OF js_split_nonempty, of nl s] show ?thesis
    by (simp add: sse_event_def)
qed

lemma fire_ends_write_stream:
  assumes "conn < length (connections g)"
  shows "conn < length (connections (fire serverName sessionKey conn g t))
     \<and> writeEnded (connections (fire serverName sessionKey conn g t) ! conn)"
  using assms
  by (cases t)
     (auto simp: on_close_def run_finally_def run_returned_def run_threw_def
        update_connection_def release_streams_def)

lemma stream_write_open:
  assumes "chunk = Text s \<or> (chunk = Value v \<and> v \<noteq> JNull)"
    and "\<not> connection_ended c"
  shows "stream_write JSON_stringify chunk c
     = (Written,
        c\<lparr>raw := (raw c)\<lparr>wire := wire (raw c)
          @ concat (map (\<lambda>line. ''data: '' @ line @ [nl])
              (js_split nl (payload_text JSON_stringify chunk))) @ [nl]\<rparr>\<rparr>)"
  using assms
  by (auto simp: stream_write_def sse_write_def payload_text_def sse_event_lines
      connection_ended_def)

lemma stream_write_ended:
  assumes "chunk \<noteq> Value JNull" and "connection_ended c"
  shows "fst (stream_write JSON_stringify chunk c) \<noteq> Written"
    and "fst (stream_write JSON_stringify chunk c) \<noteq> NullRefused"
    and "raw (snd (stream_write JSON_stringify chunk c)) = raw c"
  using assms
  by (auto simp: stream_write_def sse_write_def connection_ended_def Let_def
      split: payload.splits)

text \<open>
  C5, as amended. The pieces of the text of a payload between its line breaks are
  its lines: none holds a line break, and joined by line breaks they are the text.
  For a payload that is a string, or a value other than \<open>null\<close> that
  \<open>JSON.stringify\<close> turns into text: a write while the connection has not ended
  succeeds and appends one event: for each line, in order, \<open>data: \<close>, the line and a
  line break, and then one more line break (the blank line that ends the event).
  For every payload other than \<open>null\<close>, a write after the connection has ended
  fails with an error and writes nothing: the write stream refuses it when the
  write stream was ended or destroyed, and the \<open>write\<close> function reports
  \<open>Cannot write to closed SSE stream\<close> when only the reply was ended. The
  payload \<open>null\<close> is refused at any time, and nothing is written for it. The
  connection has ended, and the write stream was ended, after the close event of
  the request, and after the run call of the plugin has returned or thrown.
\<close>

theorem stream_write_event:
  assumes "chunk = Text s \<or> (chunk = Value v \<and> v \<noteq> JNull)"
  shows "(\<not> connection_ended c \<longrightarrow>
           stream_write JSON_stringify chunk c
             = (Written,
                c\<lparr>raw := (raw c)\<lparr>wire := wire (raw c)
                  @ concat (map (\<lambda>line. ''data: '' @ line @ [nl])
                      (js_split nl (payload_text JSON_stringify chunk))) @ [nl]\<rparr>\<rparr>))
     \<and> js_join [nl] (js_split nl (payload_text JSON_stringify chunk))
         = payload_text JSON_stringify chunk
     \<and> (\<forall>line \<in> set (js_split nl (payload_text JSON_stringify chunk)). nl \<notin> set line)
     \<and> (\<forall>other. other \<noteq> Value JNull \<and> connection_ended c \<longrightarrow>
           fst (stream_write JSON_stringify other c) \<noteq> Written
           \<and> fst (stream_write JSON_stringify other c) \<noteq> NullRefused
           \<and> raw (snd (stream_write JSON_stringify other c)) = raw c)
     \<and> (\<forall>other. other \<noteq> Value JNull \<and> (writeEnded c \<or> writeDestroyed c) \<longrightarrow>
           fst (stream_write JSON_stringify other c) = StreamClosed)
     \<and> stream_write JSON_stringify (Value JNull) c = (NullRefused, c)
     \<and> (\<not> writeEnded c \<and> \<not> writeDestroyed c \<and> writableEnded (raw c) \<longrightarrow>
           fst (stream_write JSON_stringify chunk c)
             = CallbackError ''Cannot write to closed SSE stream'')
     \<and> (\<forall>conn. conn < length (connections g) \<longrightarrow>
           connection_ended (connections (fire serverName sessionKey conn g t) ! conn)
           \<and> writeEnded (connections (fire serverName sessionKey conn g t) ! conn))"
proof -
  have a: "\<not> connection_ended c \<longrightarrow>
           stream_write JSON_stringify chunk c
             = (Written,
                c\<lparr>raw := (raw c)\<lparr>wire := wire (raw c)
                  @ concat (map (\<lambda>line. ''data: '' @ line @ [nl])
                      (js_split nl (payload_text JSON_stringify chunk))) @ [nl]\<rparr>\<rparr>)"
    using stream_write_open [OF assms, of c JSON_stringify] by blast
  have b: "js_join [nl] (js_split nl (payload_text JSON_stringify chunk))
         = payload_text JSON_stringify chunk"
    by (rule js_join_split)
  have c: "\<forall>line \<in> set (js_split nl (payload_text JSON_stringify chunk)). nl \<notin> set line"
    by (auto dest: js_split_pieces)
  have d: "\<forall>other. other \<noteq> Value JNull \<and> connection_ended c \<longrightarrow>
           fst (stream_write JSON_stringify other c) \<noteq> Written
           \<and> fst (stream_write JSON_stringify other c) \<noteq> NullRefused
           \<and> raw (snd (stream_write JSON_stringify other c)) = raw c"
    using stream_write_ended [of _ c JSON_stringify] by blast
  have e: "\<forall>other. other \<noteq> Value JNull \<and> (writeEnded c \<or> writeDestroyed c) \<longrightarrow>
           fst (stream_write JSON_stringify other c) = StreamClosed"
    by (simp add: stream_write_def)
  have f: "\<not> writeEnded c \<and> \<not> writeDestroyed c \<and> writableEnded (raw c) \<longrightarrow>
           fst (stream_write JSON_stringify chunk c)
             = CallbackError ''Cannot write to closed SSE stream''"
    using assms by (auto simp: stream_write_def sse_write_def)
  have g: "\<forall>conn. conn < length (connections g) \<longrightarrow>
           connection_ended (connections (fire serverName sessionKey conn g t) ! conn)
           \<and> writeEnded (connections (fire serverName sessionKey conn g t) ! conn)"
    using fire_ends_write_stream [of _ g serverName sessionKey t]
    by (simp add: connection_ended_def)
  have n: "stream_write JSON_stringify (Value JNull) c = (NullRefused, c)"
    by (simp add: stream_write_def)
  from a b c d e f g n show ?thesis by blast
qed

theorem stream_write_event_witness:
  "stream_write write_json (Text (''{\"id\":1}'' @ [nl, CHR ''x''])) (new_connection :: unit connection)
     = (Written,
        new_connection\<lparr>raw := \<lparr>wire = '': connection established'' @ [nl, nl]
                 @ ''data: {\"id\":1}'' @ [nl] @ ''data: x'' @ [nl, nl],
               writableEnded = False\<rparr>\<rparr>)
   \<and> js_split nl (''{\"id\":1}'' @ [nl, CHR ''x'']) = [''{\"id\":1}'', ''x'']
   \<and> 0 < length (connections session_alice)
   \<and> fst (stream_write write_json (Value (JNum 5))
        (connections (fire ''gcalendar'' ''gcalendar:alice'' 0 session_alice CloseEvent) ! 0))
       = StreamClosed
   \<and> raw (snd (stream_write write_json (Value (JNum 5))
        (connections (fire ''gcalendar'' ''gcalendar:alice'' 0 session_alice CloseEvent) ! 0)))
       = raw (connections (fire ''gcalendar'' ''gcalendar:alice'' 0 session_alice CloseEvent) ! 0)"
proof -
  let ?text = "''{\"id\":1}'' @ [nl, CHR ''x'']"
  let ?closed = "connections (fire ''gcalendar'' ''gcalendar:alice'' 0 session_alice CloseEvent) ! 0"
  have split: "js_split nl ?text = [''{\"id\":1}'', ''x'']"
    by code_simp
  have fresh: "\<not> connection_ended (new_connection :: unit connection)"
    "raw (new_connection :: unit connection)
       = \<lparr>wire = '': connection established'' @ [nl, nl], writableEnded = False\<rparr>"
    by (simp_all add: connection_ended_def new_connection_def)
  have conn: "0 < length (connections session_alice)"
    by (simp add: session_alice_def sse_accept_def get_or_create_def gateway_init_def
        session_key_def parse_identity_def createServerInstance_def)
  from stream_write_event [of "Text ?text" ?text _ "new_connection :: unit connection" write_json
      session_alice "''gcalendar''" "''gcalendar:alice''" CloseEvent] fresh split
  have 1: "stream_write write_json (Text ?text) (new_connection :: unit connection)
     = (Written,
        new_connection\<lparr>raw := \<lparr>wire = '': connection established'' @ [nl, nl]
                 @ ''data: {\"id\":1}'' @ [nl] @ ''data: x'' @ [nl, nl],
               writableEnded = False\<rparr>\<rparr>)"
    by (simp add: payload_text_def)
  from stream_write_event [of "Text ?text" ?text _ ?closed write_json
      session_alice "''gcalendar''" "''gcalendar:alice''" CloseEvent] conn
  have 2: "fst (stream_write write_json (Value (JNum 5)) ?closed) = StreamClosed
    \<and> raw (snd (stream_write write_json (Value (JNum 5)) ?closed)) = raw ?closed"
    by blast
  from 1 2 split conn show ?thesis by blast
qed

text \<open>
  C5, the claim as stated fails. On a connection that has not ended, the payload
  \<open>null\<close> is refused by the write stream and the payload \<open>undefined\<close>, which
  \<open>JSON.stringify\<close> does not turn into text, fails in the \<open>write\<close> function: neither
  is emitted as an event.
\<close>

theorem null_payload_not_emitted:
  "\<not> connection_ended (new_connection :: unit connection)
   \<and> stream_write write_json (Value JNull) (new_connection :: unit connection)
       = (NullRefused, new_connection)
   \<and> fst (stream_write write_json
        (Unserialisable ''Cannot read properties of undefined'')
        (new_connection :: unit connection))
       = CallbackError ''Cannot read properties of undefined''
   \<and> raw (snd (stream_write write_json
        (Unserialisable ''Cannot read properties of undefined'')
        (new_connection :: unit connection)))
       = raw (new_connection :: unit connection)"
  by (simp add: stream_write_def sse_write_def connection_ended_def new_connection_def)

end
